theory Spec2Isabelle
  imports Complex_Main "HOL-Library.AList" "HOL-Library.Log_Nat"
begin

section \<open>Data model of the settings dialog's docset pipeline\<close>

text \<open>
  The development embeds \<^verbatim>\<open>src/ui/settingsdialog.cpp\<close>: the slots of
  \<^verbatim>\<open>SettingsDialog\<close> become functions that take the dialog's state and return the
  new one. Qt's own classes are kept abstract where the file only calls them.
\<close>

subsection \<open>Qt values\<close>

text \<open>
  A \<^verbatim>\<open>QUrl\<close> as far as the file looks at it: whether it is valid, its scheme, and the
  remainder. An invalid \<^verbatim>\<open>QVariant\<close> converts to the empty, invalid URL.
\<close>

record QUrl =
  isValid :: bool
  scheme :: string
  remainder :: string

definition emptyUrl :: QUrl where
  "emptyUrl = \<lparr>isValid = False, scheme = [], remainder = []\<rparr>"

text \<open>\<^verbatim>\<open>QUrl::isRelative()\<close>: the URL has no scheme.\<close>

definition isRelative :: "QUrl \<Rightarrow> bool" where
  "isRelative u = (scheme u = [])"

text \<open>\<^verbatim>\<open>QUrl::setScheme\<close>.\<close>

definition setScheme :: "string \<Rightarrow> QUrl \<Rightarrow> QUrl" where
  "setScheme sch u = u\<lparr>scheme := sch\<rparr>"

text \<open>
  Modelled from the spec: the class \<^verbatim>\<open>DocsetMetadata\<close> is declared outside this file.
  The fields are the accessors the file calls (\<^verbatim>\<open>name()\<close>, \<^verbatim>\<open>title()\<close>, \<^verbatim>\<open>icon()\<close>,
  \<^verbatim>\<open>version()\<close>, \<^verbatim>\<open>feedUrl()\<close>, \<^verbatim>\<open>urls()\<close>, \<^verbatim>\<open>source()\<close>), as section 3 of the
  specification lists them. A default-constructed value has every field empty.
\<close>

record DocsetMetadata =
  name :: string
  title :: string
  icon :: string
  version :: string
  feedUrl :: QUrl
  urls :: "QUrl list"
  source :: string

definition defaultMetadata :: DocsetMetadata where
  "defaultMetadata =
     \<lparr>name = [], title = [], icon = [], version = [], feedUrl = emptyUrl, urls = [],
      source = []\<rparr>"

text \<open>JSON values, with the conversions \<^verbatim>\<open>toObject()\<close> and \<^verbatim>\<open>toString()\<close> that yield
  the empty object or string on a value of another kind.\<close>

datatype QJsonValue =
  JsonNull
  | JsonBool bool
  | JsonString string
  | JsonArray "QJsonValue list"
  | JsonObject "(string \<times> QJsonValue) list"

definition toObject :: "QJsonValue \<Rightarrow> (string \<times> QJsonValue) list" where
  "toObject v = (case v of JsonObject kvs \<Rightarrow> kvs | _ \<Rightarrow> [])"

definition toString :: "QJsonValue \<Rightarrow> string" where
  "toString v = (case v of JsonString str \<Rightarrow> str | _ \<Rightarrow> [])"

text \<open>\<^verbatim>\<open>QJsonObject::operator[]\<close> for reading: the value, or null for a missing key.\<close>

definition jsonValue :: "(string \<times> QJsonValue) list \<Rightarrow> string \<Rightarrow> QJsonValue" where
  "jsonValue obj k = (case map_of obj k of Some v \<Rightarrow> v | None \<Rightarrow> JsonNull)"

text \<open>
  Modelled from the spec: the constructor \<^verbatim>\<open>DocsetMetadata(const QJsonObject &)\<close> is
  outside this file. Section 4.1 and 6 of the specification: a catalog entry is an object
  with at least \<^verbatim>\<open>name\<close> and \<^verbatim>\<open>title\<close>; the remaining string fields are read the same
  way. The download URLs of a catalog entry are not used by this file (the archive URL is
  built from a mirror and the name).
\<close>

definition DocsetMetadata_fromJson :: "(string \<times> QJsonValue) list \<Rightarrow> DocsetMetadata" where
  "DocsetMetadata_fromJson obj =
     \<lparr>name = toString (jsonValue obj ''name''),
      title = toString (jsonValue obj ''title''),
      icon = toString (jsonValue obj ''icon''),
      version = toString (jsonValue obj ''version''),
      feedUrl = emptyUrl,
      urls = [],
      source = toString (jsonValue obj ''source'')\<rparr>"

subsection \<open>Containers\<close>

text \<open>
  \<^verbatim>\<open>QMap<QString, T>\<close> as an association list kept in key order, which is the order a
  \<^verbatim>\<open>QMap\<close> iterates in. \<^verbatim>\<open>QString\<close>'s \<^verbatim>\<open><\<close> compares code units.
\<close>

fun qstring_less :: "string \<Rightarrow> string \<Rightarrow> bool" where
  "qstring_less [] [] = False"
| "qstring_less [] (y # ys) = True"
| "qstring_less (x # xs) [] = False"
| "qstring_less (x # xs) (y # ys) =
     (if x = y then qstring_less xs ys else (of_char x :: nat) < of_char y)"

text \<open>\<^verbatim>\<open>QMap::insert\<close>: a value stored under an existing key is replaced.\<close>

fun qmap_insert :: "string \<Rightarrow> 'v \<Rightarrow> (string \<times> 'v) list \<Rightarrow> (string \<times> 'v) list" where
  "qmap_insert k v [] = [(k, v)]"
| "qmap_insert k v ((k', v') # m) =
     (if k = k' then (k, v) # m
      else if qstring_less k k' then (k, v) # (k', v') # m
      else (k', v') # qmap_insert k v m)"

definition qmap_contains :: "string \<Rightarrow> (string \<times> 'v) list \<Rightarrow> bool" where
  "qmap_contains k m = (map_of m k \<noteq> None)"

text \<open>
  The non-const \<^verbatim>\<open>operator[]\<close> used as an rvalue: the stored value; a missing key is
  first inserted with a default-constructed value.
\<close>

definition qmap_index ::
  "string \<Rightarrow> (string \<times> DocsetMetadata) list \<Rightarrow> DocsetMetadata \<times> (string \<times> DocsetMetadata) list"
  where
  "qmap_index k m =
     (case map_of m k of
        Some v \<Rightarrow> (v, m)
      | None \<Rightarrow> (defaultMetadata, qmap_insert k defaultMetadata m))"

subsection \<open>Network replies\<close>

text \<open>
  The declaration of \<^verbatim>\<open>enum DownloadType\<close> is in the header, which is not part of the
  sources; the file names its three enumerators.
\<close>

datatype DownloadType = DownloadDashFeed | DownloadDocset | DownloadDocsetList

text \<open>
  A \<^verbatim>\<open>QNetworkReply\<close> object as the file uses it: its identity (the pointer stored in
  \<^verbatim>\<open>replies\<close>), the URL of its request, and the four dynamic properties
  \<^verbatim>\<open>docsetMetadata\<close>, \<^verbatim>\<open>downloadType\<close>, \<^verbatim>\<open>downloadPreviousReceived\<close> and \<^verbatim>\<open>listItem\<close>.
  A property that was never set reads as an invalid \<^verbatim>\<open>QVariant\<close>: \<open>None\<close>.
\<close>

record QNetworkReply =
  handle :: nat
  requestUrl :: QUrl
  docsetMetadataProperty :: "DocsetMetadata option"
  downloadTypeProperty :: "DownloadType option"
  downloadPreviousReceived :: "int option"
  listItemIndexProperty :: "int option"

text \<open>What the network layer reports when a reply finishes: \<^verbatim>\<open>error()\<close>,
  \<^verbatim>\<open>errorString()\<close>, the redirection target attribute and the body (\<^verbatim>\<open>readAll()\<close>).
  Every \<^verbatim>\<open>QNetworkReply::NetworkError\<close> other than the two the file tests is \<open>OtherError\<close>.\<close>

datatype NetworkError = NoError | OperationCanceledError | OtherError

record Finished =
  replyError :: NetworkError
  errorString :: string
  redirectionTarget :: QUrl
  body :: string

subsection \<open>The dialog\<close>

datatype MessageBox =
  Warning string string
  | Critical string string

text \<open>
  An item of \<^verbatim>\<open>ui->availableDocsetList\<close>: its text (the docset's title), the docset name
  stored under \<^verbatim>\<open>ListModel::DocsetNameRole\<close>, the check state, whether it is hidden and
  whether its progress bar is shown. The progress bar's value and format are rendering
  and are left out.
\<close>

record QListWidgetItem =
  itemText :: string
  docsetNameRole :: string
  checked :: bool
  hidden :: bool
  showProgress :: bool

text \<open>
  The dialog's members and what it acts on. \<^verbatim>\<open>m_tmpFiles\<close> maps a docset name to the
  file name of its \<^verbatim>\<open>QTemporaryFile\<close>; \<open>tmpOnDisk\<close> holds the names of the temporary
  files that exist (deleting the \<^verbatim>\<open>QTemporaryFile\<close> object removes its file).
  \<open>m_docsetRegistry\<close> holds the names of the installed docsets.
  \<open>extractCalls\<close>, \<open>metaFiles\<close> and \<open>messages\<close> record, in order, the calls of
  \<^verbatim>\<open>Application::extract\<close>, the metadata files written and the message boxes shown.
  The value of the overall progress bar is a rendering of the two counters and is left
  out; the counters are \<^verbatim>\<open>qint64\<close> and stay far from the type's bounds.
\<close>

record SettingsDialog =
  replies :: "QNetworkReply list"
  m_combinedReceived :: int
  m_combinedTotal :: int
  m_availableDocsets :: "(string \<times> DocsetMetadata) list"
  m_userFeeds :: "(string \<times> DocsetMetadata) list"
  m_tmpFiles :: "(string \<times> string) list"
  m_docsetRegistry :: "string list"
  docsetPath :: string
  nextHandle :: nat
  tmpCounter :: nat
  tmpOnDisk :: "string set"
  extractCalls :: "(string \<times> string \<times> string) list"
  metaFiles :: "(string \<times> DocsetMetadata) list"
  messages :: "MessageBox list"
  downloadableGroup_visible :: bool
  docsetsProgress_visible :: bool
  downloadButton_visible :: bool
  downloadButton_enabled :: bool
  updateButton_enabled :: bool
  addFeedButton_enabled :: bool
  deleteButton_visible :: bool
  downloadDocsetButton_text :: string
  availableDocsetList_enabled :: bool
  availableDocsetList :: "QListWidgetItem list"

text \<open>
  What the file calls but does not define. \<open>resolved base rel\<close> is
  \<^verbatim>\<open>base.resolved(rel)\<close>; \<open>fromJson\<close> is \<^verbatim>\<open>QJsonDocument::fromJson\<close> followed by
  \<^verbatim>\<open>array()\<close> (the error string, or the array); \<open>fromDashFeed\<close> and \<open>metadataUrl\<close>
  are \<^verbatim>\<open>DocsetMetadata::fromDashFeed\<close> and \<^verbatim>\<open>DocsetMetadata::url()\<close>;
  \<open>urlFromString\<close> is the constructor \<^verbatim>\<open>QUrl(const QString &)\<close>;
  \<open>fromPercentEncoding\<close> is \<^verbatim>\<open>QUrl::fromPercentEncoding\<close>;
  \<open>tmpFileName n\<close> is the name the \<open>n\<close>-th \<^verbatim>\<open>QTemporaryFile\<close> is given;
  \<open>enumerator0\<close> is the enumerator of \<^verbatim>\<open>DownloadType\<close> with value 0, which an unset
  \<^verbatim>\<open>downloadType\<close> property reads as.
\<close>

record Env =
  resolved :: "QUrl \<Rightarrow> QUrl \<Rightarrow> QUrl"
  fromJson :: "string \<Rightarrow> string + QJsonValue list"
  fromDashFeed :: "QUrl \<Rightarrow> string \<Rightarrow> DocsetMetadata"
  metadataUrl :: "DocsetMetadata \<Rightarrow> QUrl"
  urlFromString :: "string \<Rightarrow> QUrl"
  fromPercentEncoding :: "string \<Rightarrow> string"
  tmpFileName :: "nat \<Rightarrow> string"
  enumerator0 :: DownloadType

section \<open>The operations\<close>

subsection \<open>Progress and list items\<close>

text \<open>\<^verbatim>\<open>displayProgress\<close>: the bar is visible while replies are in flight.\<close>

definition displayProgress :: "SettingsDialog \<Rightarrow> SettingsDialog" where
  "displayProgress s = s\<lparr>docsetsProgress_visible := (replies s \<noteq> [])\<rparr>"

definition resetProgress :: "SettingsDialog \<Rightarrow> SettingsDialog" where
  "resetProgress s =
     (let s1 = displayProgress (s\<lparr>m_combinedReceived := 0, m_combinedTotal := 0\<rparr>)
      in s1\<lparr>downloadButton_visible := (m_availableDocsets s1 = []),
            downloadDocsetButton_text := ''Download'',
            downloadButton_enabled := True,
            updateButton_enabled := True,
            addFeedButton_enabled := True,
            availableDocsetList_enabled := True\<rparr>)"

text \<open>\<^verbatim>\<open>Qt::MatchFixedString\<close> compares strings without regard to case.\<close>

definition toLower :: "char \<Rightarrow> char" where
  "toLower c =
     (if 65 \<le> (of_char c :: nat) \<and> (of_char c :: nat) \<le> 90
      then char_of (of_char c + (32 :: nat)) else c)"

definition matchFixedString :: "string \<Rightarrow> string \<Rightarrow> bool" where
  "matchFixedString a b = (map toLower a = map toLower b)"

text \<open>\<^verbatim>\<open>findDocsetListItem\<close>: the row of the first item whose text matches the title;
  \<open>None\<close> is the null pointer.\<close>

fun findRow :: "string \<Rightarrow> QListWidgetItem list \<Rightarrow> nat \<Rightarrow> nat option" where
  "findRow t [] i = None"
| "findRow t (it # its) i =
     (if matchFixedString (itemText it) t then Some i else findRow t its (Suc i))"

definition findDocsetListItem :: "string \<Rightarrow> SettingsDialog \<Rightarrow> nat option" where
  "findDocsetListItem t s = findRow t (availableDocsetList s) 0"

text \<open>\<^verbatim>\<open>QListWidget::row\<close>: the row of the item, -1 for the null pointer.\<close>

definition row :: "nat option \<Rightarrow> int" where
  "row it = (case it of None \<Rightarrow> - 1 | Some i \<Rightarrow> int i)"

text \<open>\<^verbatim>\<open>QListWidget::item\<close>: the null pointer when the row is out of range.\<close>

definition item :: "int \<Rightarrow> SettingsDialog \<Rightarrow> nat option" where
  "item i s =
     (if 0 \<le> i \<and> i < int (length (availableDocsetList s)) then Some (nat i) else None)"

definition updateItem ::
  "nat \<Rightarrow> (QListWidgetItem \<Rightarrow> QListWidgetItem) \<Rightarrow> SettingsDialog \<Rightarrow> SettingsDialog" where
  "updateItem i f s =
     s\<lparr>availableDocsetList := (availableDocsetList s)[i := f (availableDocsetList s ! i)]\<rparr>"

text \<open>An unset \<^verbatim>\<open>listItem\<close> property converts to 0 (\<^verbatim>\<open>QVariant::toInt\<close>).\<close>

definition listItemIndex :: "QNetworkReply \<Rightarrow> int" where
  "listItemIndex r = (case listItemIndexProperty r of None \<Rightarrow> 0 | Some i \<Rightarrow> i)"

subsection \<open>Starting a transfer\<close>

text \<open>
  \<^verbatim>\<open>startDownload\<close>: the new reply is appended to \<^verbatim>\<open>replies\<close> and returned; it has no
  property yet. Its pointer differs from every live one: handles are handed out in order.
\<close>

definition startDownload :: "QUrl \<Rightarrow> SettingsDialog \<Rightarrow> QNetworkReply \<times> SettingsDialog" where
  "startDownload url s =
     (let s1 = displayProgress s;
          reply = \<lparr>handle = nextHandle s1, requestUrl = url, docsetMetadataProperty = None,
                   downloadTypeProperty = None, downloadPreviousReceived = None,
                   listItemIndexProperty = None\<rparr>
      in (reply,
          s1\<lparr>replies := replies s1 @ [reply],
             nextHandle := Suc (nextHandle s1),
             downloadDocsetButton_text := ''Stop downloads'',
             downloadButton_enabled := False,
             updateButton_enabled := False,
             addFeedButton_enabled := False\<rparr>))"

text \<open>\<^verbatim>\<open>reply->setProperty(...)\<close>: the reply object with that pointer is changed where it
  stands in \<^verbatim>\<open>replies\<close>.\<close>

definition setProperty ::
  "QNetworkReply \<Rightarrow> (QNetworkReply \<Rightarrow> QNetworkReply) \<Rightarrow> SettingsDialog \<Rightarrow> SettingsDialog" where
  "setProperty reply f s =
     s\<lparr>replies := map (\<lambda>r. if handle r = handle reply then f r else r) (replies s)\<rparr>"

subsection \<open>Requesting an archive\<close>

definition kapeliUrls :: "string list" where
  "kapeliUrls =
     [''http://sanfrancisco.kapeli.com'', ''http://sanfrancisco2.kapeli.com'',
      ''http://london.kapeli.com'', ''http://london2.kapeli.com'',
      ''http://london3.kapeli.com'', ''http://newyork.kapeli.com'',
      ''http://newyork2.kapeli.com'', ''http://sydney.kapeli.com'',
      ''http://tokyo.kapeli.com'', ''http://tokyo2.kapeli.com'']"

text \<open>
  \<^verbatim>\<open>downloadDashDocset(name)\<close>; \<open>rnd\<close> is the value \<^verbatim>\<open>qrand()\<close> returns when it is
  called.
\<close>

definition downloadDashDocset :: "Env \<Rightarrow> nat \<Rightarrow> string \<Rightarrow> SettingsDialog \<Rightarrow> SettingsDialog" where
  "downloadDashDocset env rnd docset s =
     (if \<not> qmap_contains docset (m_availableDocsets s) then s
      else
        let url = urlFromString env
                    (kapeliUrls ! (rnd mod length kapeliUrls) @ ''/feeds/'' @ docset @ ''.tgz'');
            (reply, s1) = startDownload url s;
            md = (case map_of (m_availableDocsets s1) docset of
                    Some v \<Rightarrow> v | None \<Rightarrow> defaultMetadata);
            s2 = setProperty reply (\<lambda>r. r\<lparr>docsetMetadataProperty := Some md\<rparr>) s1;
            s3 = setProperty reply (\<lambda>r. r\<lparr>downloadTypeProperty := Some DownloadDocset\<rparr>) s2
        in setProperty reply
             (\<lambda>r. r\<lparr>listItemIndexProperty := Some (row (findDocsetListItem (title md) s3))\<rparr>) s3)"

subsection \<open>The catalog\<close>

text \<open>
  \<^verbatim>\<open>processDocsetList\<close>. The first loop tags each element with the source and inserts
  its metadata under its name; the second creates one list item per entry of
  \<^verbatim>\<open>m_availableDocsets\<close>, appended to the list widget, hidden when the docset is
  installed.
\<close>

definition catalogEntry :: "QJsonValue \<Rightarrow> DocsetMetadata" where
  "catalogEntry v =
     DocsetMetadata_fromJson (AList.update ''source'' (JsonString ''kapeli'') (toObject v))"

definition insertEntry ::
  "(string \<times> DocsetMetadata) list \<Rightarrow> QJsonValue \<Rightarrow> (string \<times> DocsetMetadata) list" where
  "insertEntry m v = (let metadata = catalogEntry v in qmap_insert (name metadata) metadata m)"

definition newListItem :: "string list \<Rightarrow> DocsetMetadata \<Rightarrow> QListWidgetItem" where
  "newListItem registry metadata =
     \<lparr>itemText = title metadata, docsetNameRole = name metadata, checked = False,
      hidden = (name metadata \<in> set registry), showProgress = False\<rparr>"

definition processDocsetList :: "QJsonValue list \<Rightarrow> SettingsDialog \<Rightarrow> SettingsDialog" where
  "processDocsetList list s =
     (let s1 = s\<lparr>m_availableDocsets := foldl insertEntry (m_availableDocsets s) list\<rparr>
      in s1\<lparr>availableDocsetList :=
              availableDocsetList s1 @
              map (\<lambda>(k, metadata). newListItem (m_docsetRegistry s1) metadata)
                (m_availableDocsets s1)\<rparr>)"

definition ApiUrl :: string where
  "ApiUrl = ''http://api.zealdocs.org''"

definition downloadDocsetList :: "Env \<Rightarrow> SettingsDialog \<Rightarrow> SettingsDialog" where
  "downloadDocsetList env s =
     (let s1 = s\<lparr>downloadButton_visible := False, availableDocsetList := [],
                 m_availableDocsets := []\<rparr>;
          (reply, s2) = startDownload (urlFromString env (ApiUrl @ ''/docsets'')) s1
      in setProperty reply (\<lambda>r. r\<lparr>downloadTypeProperty := Some DownloadDocsetList\<rparr>) s2)"

text \<open>
  \<^verbatim>\<open>on_tabWidget_currentChanged\<close>; \<open>docsetsTab\<close> tells whether the tab switched to is the
  docsets tab. The catalog is fetched when that tab is shown while the list of available
  docsets has no item, whether or not a catalog fetch is already under way.
\<close>

definition on_tabWidget_currentChanged :: "Env \<Rightarrow> bool \<Rightarrow> SettingsDialog \<Rightarrow> SettingsDialog" where
  "on_tabWidget_currentChanged env docsetsTab s =
     (if \<not> docsetsTab \<or> length (availableDocsetList s) \<noteq> 0 then s
      else downloadDocsetList env s)"

subsection \<open>Adding a feed\<close>

text \<open>\<^verbatim>\<open>addDashFeed\<close>; \<open>feedText\<close> is the text the input dialog returns.\<close>

definition addDashFeed :: "Env \<Rightarrow> string \<Rightarrow> SettingsDialog \<Rightarrow> SettingsDialog" where
  "addDashFeed env feedText s =
     (if feedText = [] then s
      else
        let feedText1 = (if take 12 feedText = ''dash-feed://''
                         then fromPercentEncoding env (drop 12 feedText) else feedText);
            (reply, s1) = startDownload (urlFromString env feedText1) s
        in setProperty reply (\<lambda>r. r\<lparr>downloadTypeProperty := Some DownloadDashFeed\<rparr>) s1)"

subsection \<open>Progress of a reply\<close>

text \<open>\<^verbatim>\<open>on_downloadProgress\<close>, for the reply that sent the signal. The value shown on the
  list item is rendering and left out.\<close>

definition on_downloadProgress ::
  "QNetworkReply \<Rightarrow> int \<Rightarrow> int \<Rightarrow> SettingsDialog \<Rightarrow> SettingsDialog" where
  "on_downloadProgress reply bytesReceived bytesTotal s =
     (if bytesTotal = - 1 \<or> bytesReceived < 10240 then s
      else
        let s1 = (case downloadPreviousReceived reply of
                    None \<Rightarrow> s\<lparr>m_combinedTotal := m_combinedTotal s + bytesTotal\<rparr>
                  | Some p \<Rightarrow> s);
            previousReceived = (case downloadPreviousReceived reply of
                                  None \<Rightarrow> 0 | Some p \<Rightarrow> p);
            s2 = s1\<lparr>m_combinedReceived := m_combinedReceived s1 + (bytesReceived - previousReceived)\<rparr>;
            s3 = setProperty reply (\<lambda>r. r\<lparr>downloadPreviousReceived := Some bytesReceived\<rparr>) s2
        in displayProgress s3)"

subsection \<open>Completion of a reply\<close>

text \<open>\<^verbatim>\<open>QList::removeOne\<close> on the list of reply pointers.\<close>

fun removeOne :: "QNetworkReply \<Rightarrow> QNetworkReply list \<Rightarrow> QNetworkReply list" where
  "removeOne reply [] = []"
| "removeOne reply (r # rs) = (if handle r = handle reply then rs else r # removeOne reply rs)"

text \<open>The URL a redirected reply is restarted with (lines 165 to 172).\<close>

definition redirectedUrl :: "Env \<Rightarrow> QNetworkReply \<Rightarrow> QUrl \<Rightarrow> QUrl" where
  "redirectedUrl env reply redirectUrl =
     (let redirectUrl1 = (if isRelative redirectUrl
                          then resolved env (requestUrl reply) redirectUrl else redirectUrl)
      in if scheme redirectUrl1 = []
         then setScheme (scheme (requestUrl reply)) redirectUrl1 else redirectUrl1)"

definition downloadType :: "Env \<Rightarrow> QNetworkReply \<Rightarrow> DownloadType" where
  "downloadType env reply =
     (case downloadTypeProperty reply of None \<Rightarrow> enumerator0 env | Some t \<Rightarrow> t)"

definition metadataOf :: "QNetworkReply \<Rightarrow> DocsetMetadata" where
  "metadataOf reply =
     (case docsetMetadataProperty reply of None \<Rightarrow> defaultMetadata | Some m \<Rightarrow> m)"

text \<open>The three cases of the \<^verbatim>\<open>switch\<close>.\<close>

definition case_DownloadDocsetList :: "Env \<Rightarrow> Finished \<Rightarrow> SettingsDialog \<Rightarrow> SettingsDialog" where
  "case_DownloadDocsetList env fin s =
     (case fromJson env (body fin) of
        Inl err \<Rightarrow>
          s\<lparr>messages := messages s @ [Warning ''Error'' (''Corrupted docset list: '' @ err)]\<rparr>
      | Inr list \<Rightarrow>
          let s1 = processDocsetList list s;
              s2 = (if m_availableDocsets s1 \<noteq> []
                    then s1\<lparr>downloadableGroup_visible := True\<rparr> else s1)
          in resetProgress s2)"

definition case_DownloadDashFeed ::
  "Env \<Rightarrow> QNetworkReply \<Rightarrow> Finished \<Rightarrow> SettingsDialog \<Rightarrow> SettingsDialog" where
  "case_DownloadDashFeed env reply fin s =
     (let metadata = fromDashFeed env (requestUrl reply) (body fin) in
      if urls metadata = []
      then s\<lparr>messages := messages s @ [Critical ''Zeal'' ''Invalid docset feed!'']\<rparr>
      else
        let oldMetadata = metadataOf reply in
        if version metadata = [] \<or> version oldMetadata \<noteq> version metadata
        then
          let s1 = s\<lparr>m_userFeeds := qmap_insert (name metadata) metadata (m_userFeeds s)\<rparr>;
              (newReply, s2) = startDownload (metadataUrl env metadata) s1;
              s3 = setProperty newReply (\<lambda>r. r\<lparr>docsetMetadataProperty := Some metadata\<rparr>) s2
          in setProperty newReply (\<lambda>r. r\<lparr>downloadTypeProperty := Some DownloadDocset\<rparr>) s3
        else s)"

definition case_DownloadDocset ::
  "Env \<Rightarrow> QNetworkReply \<Rightarrow> Finished \<Rightarrow> SettingsDialog \<Rightarrow> SettingsDialog" where
  "case_DownloadDocset env reply fin s =
     (let metadata = metadataOf reply;
          tmpFile = tmpFileName env (tmpCounter s);
          s1 = s\<lparr>tmpCounter := Suc (tmpCounter s), tmpOnDisk := insert tmpFile (tmpOnDisk s)\<rparr>;
          s2 = s1\<lparr>m_tmpFiles := AList.update (name metadata) tmpFile (m_tmpFiles s1)\<rparr>
      in s2\<lparr>extractCalls :=
              extractCalls s2 @ [(tmpFile, docsetPath s2, name metadata @ ''.docset'')]\<rparr>)"

text \<open>
  \<^verbatim>\<open>downloadCompleted\<close>, for the reply that sent \<^verbatim>\<open>finished\<close>. The C++ function returns
  nothing; the first component of the result names the path taken through it: the two
  error exits, the redirect exit (with the new reply as it stands after its properties
  were copied), or the \<^verbatim>\<open>switch\<close> (with the download type switched on and the reply).
\<close>

datatype Completion =
  NetworkFailure
  | Cancelled
  | Redirected QNetworkReply
  | Dispatched DownloadType QNetworkReply

definition downloadCompleted ::
  "Env \<Rightarrow> QNetworkReply \<Rightarrow> Finished \<Rightarrow> SettingsDialog \<Rightarrow> Completion \<times> SettingsDialog" where
  "downloadCompleted env reply fin s =
     (let s0 = s\<lparr>replies := removeOne reply (replies s)\<rparr> in
      if replyError fin \<noteq> NoError then
        (if replyError fin \<noteq> OperationCanceledError
         then (NetworkFailure,
               s0\<lparr>messages := messages s0 @ [Warning ''Network Error'' (errorString fin)]\<rparr>)
         else (Cancelled, s0))
      else if isValid (redirectionTarget fin) then
        let (newReply, s1) = startDownload (redirectedUrl env reply (redirectionTarget fin)) s0;
            copyMetadata = (\<lambda>r. r\<lparr>docsetMetadataProperty := docsetMetadataProperty reply\<rparr>);
            copyType = (\<lambda>r. r\<lparr>downloadTypeProperty := downloadTypeProperty reply\<rparr>);
            copyItem = (\<lambda>r. r\<lparr>listItemIndexProperty := listItemIndexProperty reply\<rparr>);
            s2 = setProperty newReply copyMetadata s1;
            s3 = setProperty newReply copyType s2;
            s4 = setProperty newReply copyItem s3
        in (Redirected (copyItem (copyType (copyMetadata newReply))), s4)
      else
        let s1 = (case downloadType env reply of
                    DownloadDocsetList \<Rightarrow> case_DownloadDocsetList env fin s0
                  | DownloadDashFeed \<Rightarrow> case_DownloadDashFeed env reply fin s0
                  | DownloadDocset \<Rightarrow> case_DownloadDocset env reply fin s0)
        in (Dispatched (downloadType env reply) reply,
            if replies s1 = [] then resetProgress s1 else s1))"

text \<open>
  The event loop delivering \<^verbatim>\<open>finished\<close> to one transfer: each response of the list
  is handled by \<^verbatim>\<open>downloadCompleted\<close> for the reply currently standing for the transfer;
  after a redirect that is the new reply. The result lists the paths taken.
\<close>

fun deliver ::
  "Env \<Rightarrow> QNetworkReply \<Rightarrow> Finished list \<Rightarrow> SettingsDialog \<Rightarrow> Completion list \<times> SettingsDialog"
  where
  "deliver env reply [] s = ([], s)"
| "deliver env reply (fin # fins) s =
     (let (c, s1) = downloadCompleted env reply fin s in
      case c of
        Redirected newReply \<Rightarrow>
          (let (cs, s2) = deliver env newReply fins s1 in (c # cs, s2))
      | _ \<Rightarrow> ([c], s1))"

text \<open>A completion that ends the transfer: every path but the redirect.\<close>

definition isTerminal :: "Completion \<Rightarrow> bool" where
  "isTerminal c = (case c of Redirected r \<Rightarrow> False | _ \<Rightarrow> True)"

definition isRedirect :: "Finished \<Rightarrow> bool" where
  "isRedirect fin = (replyError fin = NoError \<and> isValid (redirectionTarget fin))"

subsection \<open>Stopping\<close>

text \<open>
  \<^verbatim>\<open>stopDownloads\<close>. \<^verbatim>\<open>reply->abort()\<close> asks the network layer to finish the reply with
  \<^verbatim>\<open>OperationCanceledError\<close>; the replies it was called on are returned in order.
\<close>

fun stopLoop ::
  "QNetworkReply list \<Rightarrow> SettingsDialog \<Rightarrow> QNetworkReply list \<times> SettingsDialog" where
  "stopLoop [] s = ([], s)"
| "stopLoop (reply # rs) s =
     (case item (listItemIndex reply) s of
        None \<Rightarrow> stopLoop rs s
      | Some i \<Rightarrow>
          (let s1 = updateItem i (\<lambda>it. it\<lparr>showProgress := False\<rparr>) s;
               (aborted, s2) = stopLoop rs s1
           in (reply # aborted, s2)))"

definition stopDownloads :: "SettingsDialog \<Rightarrow> QNetworkReply list \<times> SettingsDialog" where
  "stopDownloads s = (let (aborted, s1) = stopLoop (replies s) s in (aborted, resetProgress s1))"

subsection \<open>Extraction\<close>

text \<open>\<^verbatim>\<open>delete m_tmpFiles.take(docsetName)\<close>: the entry is removed and its temporary file
  deleted; for a key that is not in the table nothing happens.\<close>

definition deleteTake :: "string \<Rightarrow> SettingsDialog \<Rightarrow> SettingsDialog" where
  "deleteTake docsetName s =
     (case map_of (m_tmpFiles s) docsetName of
        None \<Rightarrow> s
      | Some tmpFile \<Rightarrow>
          s\<lparr>m_tmpFiles := AList.delete docsetName (m_tmpFiles s),
            tmpOnDisk := tmpOnDisk s - {tmpFile}\<rparr>)"

text \<open>The scan of \<^verbatim>\<open>m_tmpFiles.keys()\<close> for the key whose file has the given name; the
  empty string when there is none.\<close>

definition keyOfTmpFile :: "string \<Rightarrow> SettingsDialog \<Rightarrow> string" where
  "keyOfTmpFile filePath s =
     (case find (\<lambda>(k, f). f = filePath) (m_tmpFiles s) of
        None \<Rightarrow> []
      | Some (k, f) \<Rightarrow> k)"

text \<open>Modelled from the spec: \<^verbatim>\<open>DocsetRegistry::addDocset\<close>, \<^verbatim>\<open>remove\<close> and
  \<^verbatim>\<open>contains\<close> are outside this file; section 6 gives their contract. The registry is
  keyed by docset name, and the docset added from the directory
  \<^verbatim>\<open><name>.docset\<close> has that name.\<close>

definition registry_addDocset :: "string \<Rightarrow> string list \<Rightarrow> string list" where
  "registry_addDocset docsetName reg = (if docsetName \<in> set reg then reg else reg @ [docsetName])"

definition registry_remove :: "string \<Rightarrow> string list \<Rightarrow> string list" where
  "registry_remove docsetName reg = removeAll docsetName reg"

definition registry_contains :: "string \<Rightarrow> string list \<Rightarrow> bool" where
  "registry_contains docsetName reg = (docsetName \<in> set reg)"

definition extractionCompleted :: "string \<Rightarrow> SettingsDialog \<Rightarrow> SettingsDialog" where
  "extractionCompleted filePath s =
     (let docsetName = keyOfTmpFile filePath s;
          docsetDir = docsetPath s @ ''/'' @ docsetName @ ''.docset'';
          (metadata, s1) =
            (case map_of (m_availableDocsets s) docsetName of
               Some v \<Rightarrow> (v, s)
             | None \<Rightarrow> (let (v, m) = qmap_index docsetName (m_userFeeds s)
                        in (v, s\<lparr>m_userFeeds := m\<rparr>)));
          s2 = s1\<lparr>metaFiles := metaFiles s1 @ [(docsetDir @ ''/meta.json'', metadata)]\<rparr>;
          s3 = s2\<lparr>m_docsetRegistry := registry_addDocset docsetName (m_docsetRegistry s2)\<rparr>;
          s4 = (case findDocsetListItem (title metadata) s3 of
                  None \<Rightarrow> s3
                | Some i \<Rightarrow>
                    updateItem i
                      (\<lambda>it. it\<lparr>hidden := True, checked := False, showProgress := False\<rparr>) s3)
      in deleteTake docsetName (resetProgress s4))"

text \<open>\<^verbatim>\<open>QFileInfo::baseName()\<close>: the file name without its path, up to the first dot.\<close>

definition baseName :: "string \<Rightarrow> string" where
  "baseName filePath =
     takeWhile (\<lambda>c. c \<noteq> CHR ''.'') (rev (takeWhile (\<lambda>c. c \<noteq> CHR ''/'') (rev filePath)))"

definition extractionError :: "string \<Rightarrow> string \<Rightarrow> SettingsDialog \<Rightarrow> SettingsDialog" where
  "extractionError filePath errorStr s =
     (let docsetName = baseName filePath @ ''.docset'';
          s1 = s\<lparr>messages := messages s @
                  [Warning ''Extraction Error''
                     (''Cannot extract docset <b>'' @ docsetName @ ''</b>: '' @ errorStr)]\<rparr>
      in deleteTake docsetName s1)"

subsection \<open>Deleting a docset\<close>

datatype StandardButton = Yes | No

text \<open>
  \<^verbatim>\<open>on_deleteButton_clicked\<close>. \<open>docsetTitle\<close> and \<open>docsetName\<close> are the data of the
  current index of the installed list, \<open>answer\<close> the button the question box returns,
  \<open>dataDirExists\<close> the result of \<^verbatim>\<open>dataDir.exists()\<close>. The first component tells whether
  the removal of the directory was handed to the background thread.
\<close>

definition on_deleteButton_clicked ::
  "string \<Rightarrow> string \<Rightarrow> StandardButton \<Rightarrow> bool \<Rightarrow> SettingsDialog \<Rightarrow> bool \<times> SettingsDialog" where
  "on_deleteButton_clicked docsetTitle docsetName answer dataDirExists s =
     (if answer = No then (False, s)
      else
        let s1 = s\<lparr>m_docsetRegistry := registry_remove docsetName (m_docsetRegistry s)\<rparr> in
        if dataDirExists
        then (True,
              displayProgress (s1\<lparr>docsetsProgress_visible := True, deleteButton_visible := False\<rparr>))
        else (False, s1))"

text \<open>The slot connected to the watcher's \<^verbatim>\<open>finished\<close>; \<open>result\<close> is what the removal
  returned.\<close>

definition deleteFinished :: "bool \<Rightarrow> string \<Rightarrow> SettingsDialog \<Rightarrow> SettingsDialog" where
  "deleteFinished result docsetTitle s =
     (let s1 = (if \<not> result
                then s\<lparr>messages := messages s @
                         [Warning ''Error'' (''Cannot delete docset <b>'' @ docsetTitle @ ''</b>!'')]\<rparr>
                else s);
          s2 = (resetProgress s1)\<lparr>deleteButton_visible := True\<rparr>
      in case findDocsetListItem docsetTitle s2 of
           None \<Rightarrow> s2
         | Some i \<Rightarrow> updateItem i (\<lambda>it. it\<lparr>hidden := False\<rparr>) s2)"

subsection \<open>A concrete dialog\<close>

text \<open>The dialog after construction, and stand-ins for the functions of \<open>Env\<close>, for
  evaluating the operations on concrete inputs.\<close>

definition initialDialog :: SettingsDialog where
  "initialDialog =
     \<lparr>replies = [], m_combinedReceived = 0, m_combinedTotal = 0, m_availableDocsets = [],
      m_userFeeds = [], m_tmpFiles = [], m_docsetRegistry = [], docsetPath = ''/docsets'',
      nextHandle = 0, tmpCounter = 0, tmpOnDisk = {}, extractCalls = [], metaFiles = [],
      messages = [], downloadableGroup_visible = False, docsetsProgress_visible = False,
      downloadButton_visible = True, downloadButton_enabled = True,
      updateButton_enabled = True, addFeedButton_enabled = True,
      deleteButton_visible = True, downloadDocsetButton_text = ''Download'',
      availableDocsetList_enabled = True, availableDocsetList = []\<rparr>"

definition httpUrl :: "string \<Rightarrow> QUrl" where
  "httpUrl r = \<lparr>isValid = True, scheme = ''http'', remainder = r\<rparr>"

definition goMetadata :: "string \<Rightarrow> DocsetMetadata" where
  "goMetadata v =
     \<lparr>name = ''go'', title = ''Go'', icon = ''go'', version = v,
      feedUrl = httpUrl ''//x/go.xml'', urls = [httpUrl ''//x/go.tgz''], source = []\<rparr>"

definition goCatalog :: "QJsonValue list" where
  "goCatalog =
     [JsonObject [(''name'', JsonString ''go''), (''title'', JsonString ''Go'')],
      JsonObject [(''name'', JsonString ''c''), (''title'', JsonString ''C'')],
      JsonObject [(''name'', JsonString ''go''), (''title'', JsonString ''Golang'')]]"

definition env0 :: Env where
  "env0 =
     \<lparr>resolved = (\<lambda>base rel. \<lparr>isValid = True, scheme = scheme base, remainder = remainder rel\<rparr>),
      fromJson = (\<lambda>bytes. if bytes = ''catalog'' then Inr goCatalog else Inl ''illegal value''),
      fromDashFeed = (\<lambda>url bytes. goMetadata bytes),
      metadataUrl = (\<lambda>metadata. case urls metadata of [] \<Rightarrow> emptyUrl | u # us \<Rightarrow> u),
      urlFromString = (\<lambda>str. \<lparr>isValid = (str \<noteq> []), scheme = ''http'', remainder = drop 5 str\<rparr>),
      fromPercentEncoding = (\<lambda>str. str),
      tmpFileName = (\<lambda>n. ''/tmp/zeal.'' @ replicate (Suc n) CHR ''a''),
      enumerator0 = DownloadDashFeed\<rparr>"


subsection \<open>The percentage\<close>

text \<open>
  \<^verbatim>\<open>percent\<close> computes \<^verbatim>\<open>fraction / static_cast<double>(total) * 100\<close> in double
  precision and converts the result to \<^verbatim>\<open>int\<close>. A \<^verbatim>\<open>double\<close> is an IEEE 754 binary64
  number and every operation rounds its exact result to the nearest one, ties to the
  even significand. Finite doubles are rationals, so the values are of type \<open>rat\<close> and an
  operation is the exact operation followed by \<open>toDouble\<close>, as on the targets that
  evaluate \<^verbatim>\<open>double\<close> expressions in double precision (SSE2, x86-64, ARM). The exponent
  range is not modelled: for \<^verbatim>\<open>qint64\<close> arguments every intermediate value is zero or
  of magnitude between \<open>2 powi -64\<close> and \<open>2 powi 71\<close>, far inside the normal range.
\<close>

text \<open>The exponent \<open>e\<close> of a positive rational: \<open>2 powi e \<le> x < 2 powi (e + 1)\<close>.\<close>

definition exponentOf :: "rat \<Rightarrow> int" where
  "exponentOf x =
     (let (p, q) = quotient_of x;
          d = bitlen p - bitlen q
      in if x < 2 powi d then d - 1 else d)"

text \<open>Rounding to the nearest integer, a tie to the even one.\<close>

definition roundHalfEven :: "rat \<Rightarrow> int" where
  "roundHalfEven x =
     (let n = \<lfloor>x\<rfloor>; r = x - of_int n
      in if r < 1 / 2 then n else if 1 / 2 < r then n + 1 else if even n then n else n + 1)"

text \<open>Rounding to 53 significant bits: the significand is an integer multiple of the
  unit in the last place, \<open>2 powi (e - 52)\<close>.\<close>

definition toDouble :: "rat \<Rightarrow> rat" where
  "toDouble x =
     (if x = 0 then 0
      else let u = 2 powi (exponentOf \<bar>x\<bar> - 52)
           in sgn x * of_int (roundHalfEven (\<bar>x\<bar> / u)) * u)"

text \<open>The conversion of a \<^verbatim>\<open>double\<close> to an integer discards the fraction.\<close>

definition truncate :: "rat \<Rightarrow> int" where
  "truncate x = (if 0 \<le> x then \<lfloor>x\<rfloor> else \<lceil>x\<rceil>)"

text \<open>
  \<^verbatim>\<open>percent(fraction, total)\<close>. Both arguments are converted to \<^verbatim>\<open>double\<close>, divided, and
  the quotient is multiplied by 100. The conversion of the product to \<^verbatim>\<open>int\<close> is
  undefined when the truncated value is not an \<^verbatim>\<open>int\<close>: \<open>None\<close>.
\<close>

definition percent :: "int \<Rightarrow> int \<Rightarrow> int option" where
  "percent fraction total' =
     (if total' = 0 then Some 0
      else
        let q = toDouble (toDouble (of_int fraction) / toDouble (of_int total'));
            n = truncate (toDouble (q * 100))
        in if - (2 ^ 31) \<le> n \<and> n < 2 ^ 31 then Some n else None)"

text \<open>The product before it is converted to \<^verbatim>\<open>int\<close>.\<close>

definition doubleProduct :: "int \<Rightarrow> int \<Rightarrow> rat" where
  "doubleProduct fraction total' =
     toDouble (toDouble (toDouble (of_int fraction) / toDouble (of_int total')) * 100)"

text \<open>
  The percentage in the words of the specification (section 4.6), for comparison:
  the floor of \<open>received / total * 100\<close> in exact arithmetic, clamped to the range from
  0 to 100, and 0 when the total is 0.
\<close>

definition percent_spec :: "int \<Rightarrow> int \<Rightarrow> int" where
  "percent_spec received total' =
     (if total' = 0 then 0
      else min 100 (max 0 \<lfloor>of_int received / of_int total' * (100 :: rat)\<rfloor>))"


subsection \<open>Reply handles\<close>

text \<open>
  The pointer of a reply created by \<^verbatim>\<open>startDownload\<close> differs from the pointers of the
  replies still in \<^verbatim>\<open>replies\<close>. In the model handles are handed out by a counter, and
  a state is well formed when every active reply has a handle below it.
\<close>

definition wellFormed :: "SettingsDialog \<Rightarrow> bool" where
  "wellFormed s = list_all (\<lambda>r. handle r < nextHandle s) (replies s)"

text \<open>The reply that follows a redirect, after the three properties were copied.\<close>

definition redirectedReply :: "Env \<Rightarrow> nat \<Rightarrow> QNetworkReply \<Rightarrow> QUrl \<Rightarrow> QNetworkReply" where
  "redirectedReply env h reply target =
     \<lparr>handle = h, requestUrl = redirectedUrl env reply target,
      docsetMetadataProperty = docsetMetadataProperty reply,
      downloadTypeProperty = downloadTypeProperty reply,
      downloadPreviousReceived = None,
      listItemIndexProperty = listItemIndexProperty reply\<rparr>"

definition sameProperties :: "QNetworkReply \<Rightarrow> QNetworkReply \<Rightarrow> bool" where
  "sameProperties r reply =
     (docsetMetadataProperty r = docsetMetadataProperty reply \<and>
      downloadTypeProperty r = downloadTypeProperty reply \<and>
      listItemIndexProperty r = listItemIndexProperty reply)"

text \<open>The reply standing for a transfer after the completions \<open>cs\<close>.\<close>

definition currentReply :: "QNetworkReply \<Rightarrow> Completion list \<Rightarrow> QNetworkReply" where
  "currentReply reply cs =
     foldl (\<lambda>r c. case c of Redirected r' \<Rightarrow> r' | _ \<Rightarrow> r) reply cs"

subsection \<open>Concrete states and responses\<close>

text \<open>
  The dialog after the catalog \<open>goCatalog\<close> was processed, the dialog after the archive
  of \<^verbatim>\<open>go\<close> was then requested, and the reply of that request.
\<close>

definition catalogDialog :: SettingsDialog where
  "catalogDialog = processDocsetList goCatalog initialDialog"

definition archiveDialog :: SettingsDialog where
  "archiveDialog = downloadDashDocset env0 0 ''go'' catalogDialog"

definition archiveReply :: QNetworkReply where
  "archiveReply = last (replies archiveDialog)"

definition redirectTo :: "QUrl \<Rightarrow> Finished" where
  "redirectTo target =
     \<lparr>replyError = NoError, errorString = [], redirectionTarget = target, body = []\<rparr>"

definition okResponse :: "string \<Rightarrow> Finished" where
  "okResponse bytes =
     \<lparr>replyError = NoError, errorString = [], redirectionTarget = emptyUrl, body = bytes\<rparr>"

definition failedResponse :: "NetworkError \<Rightarrow> string \<Rightarrow> Finished" where
  "failedResponse e msg =
     \<lparr>replyError = e, errorString = msg, redirectionTarget = emptyUrl, body = []\<rparr>"

definition relativeUrl :: "string \<Rightarrow> QUrl" where
  "relativeUrl r = \<lparr>isValid = True, scheme = [], remainder = r\<rparr>"

text \<open>
  The dialog once the archive of \<^verbatim>\<open>go\<close> has arrived and its extraction was started; a
  dialog that already holds a feed for \<^verbatim>\<open>go\<close> with version 1, and that dialog after the
  user added the feed again; a dialog whose catalog snapshot holds another docset.
\<close>

definition installingDialog :: SettingsDialog where
  "installingDialog = snd (downloadCompleted env0 archiveReply (okResponse ''tgz'') archiveDialog)"

definition knownFeedDialog :: SettingsDialog where
  "knownFeedDialog = initialDialog\<lparr>m_userFeeds := [(''go'', goMetadata ''1'')]\<rparr>"

definition feedDialog :: SettingsDialog where
  "feedDialog = addDashFeed env0 ''dash-feed://http://x/go.xml'' knownFeedDialog"

definition staleDialog :: SettingsDialog where
  "staleDialog =
     initialDialog\<lparr>m_availableDocsets := [(''rust'', defaultMetadata\<lparr>name := ''rust''\<rparr>)]\<rparr>"

text \<open>
  Two catalog fetches under way at once. The docsets tab is shown twice before any reply
  has arrived, so the second fetch is started while the list is still empty. The services
  \<open>env1\<close> are \<open>env0\<close> with a second body, \<^verbatim>\<open>old\<close>, that parses to a catalog of the single
  docset \<^verbatim>\<open>rust\<close>. In \<open>overlapDialog\<close> the reply of the first fetch has completed with that
  body and the reply of the second fetch is still under way.
\<close>

definition rustCatalog :: "QJsonValue list" where
  "rustCatalog = [JsonObject [(''name'', JsonString ''rust''), (''title'', JsonString ''Rust'')]]"

definition env1 :: Env where
  "env1 = env0\<lparr>fromJson :=
     (\<lambda>bytes. if bytes = ''old'' then Inr rustCatalog else fromJson env0 bytes)\<rparr>"

definition twoFetchDialog :: SettingsDialog where
  "twoFetchDialog =
     on_tabWidget_currentChanged env1 True (on_tabWidget_currentChanged env1 True initialDialog)"

definition overlapDialog :: SettingsDialog where
  "overlapDialog =
     snd (downloadCompleted env1 (hd (replies twoFetchDialog)) (okResponse ''old'') twoFetchDialog)"

text \<open>
  The dialog right after the catalog fetch was started from the initial dialog (the list
  of available docsets is empty then), the same after the first progress report of that
  reply (20480 of 40960 bytes), and the dialog after the docset \<^verbatim>\<open>go\<close> was installed.
\<close>

definition catalogFetchDialog :: "Env \<Rightarrow> SettingsDialog" where
  "catalogFetchDialog env = downloadDocsetList env initialDialog"

definition progressDialog :: "Env \<Rightarrow> SettingsDialog" where
  "progressDialog env =
     on_downloadProgress (last (replies (catalogFetchDialog env))) 20480 40960
       (catalogFetchDialog env)"

definition installedDialog :: SettingsDialog where
  "installedDialog = extractionCompleted ''/tmp/zeal.a'' installingDialog"


section \<open>Properties\<close>

subsection \<open>Replies, handles and the paths through \<^verbatim>\<open>downloadCompleted\<close>\<close>

lemma set_removeOne: "set (removeOne reply rs) \<subseteq> set rs"
  by (induction rs) auto

lemma length_removeOne:
  "handle reply \<in> handle ` set rs \<Longrightarrow> Suc (length (removeOne reply rs)) = length rs"
  by (induction rs) auto

lemma map_update_fresh:
  "list_all (\<lambda>r. handle r \<noteq> h) rs \<Longrightarrow>
     map (\<lambda>r. if handle r = h then f r else r) rs = rs"
  by (induction rs) auto

lemma wellFormed_removeOne:
  "wellFormed s \<Longrightarrow> list_all (\<lambda>r. handle r \<noteq> nextHandle s) (removeOne reply (replies s))"
proof -
  assume wf: "wellFormed s"
  have "handle r \<noteq> nextHandle s" if "r \<in> set (removeOne reply (replies s))" for r
  proof -
    from that set_removeOne have "r \<in> set (replies s)" by blast
    with wf have "handle r < nextHandle s" by (simp add: wellFormed_def list_all_iff)
    then show ?thesis by simp
  qed
  then show ?thesis by (simp add: list_all_iff)
qed

lemma downloadCompleted_error:
  assumes "replyError fin \<noteq> NoError"
  shows "downloadCompleted env reply fin s =
     (if replyError fin = OperationCanceledError
      then (Cancelled, s\<lparr>replies := removeOne reply (replies s)\<rparr>)
      else (NetworkFailure,
            s\<lparr>replies := removeOne reply (replies s),
              messages := messages s @ [Warning ''Network Error'' (errorString fin)]\<rparr>))"
  using assms by (simp add: downloadCompleted_def Let_def)

lemma downloadCompleted_redirect:
  assumes "wellFormed s" "replyError fin = NoError" "isValid (redirectionTarget fin)"
  shows "downloadCompleted env reply fin s =
     (Redirected (redirectedReply env (nextHandle s) reply (redirectionTarget fin)),
      s\<lparr>replies := removeOne reply (replies s) @
                    [redirectedReply env (nextHandle s) reply (redirectionTarget fin)],
        nextHandle := Suc (nextHandle s),
        docsetsProgress_visible := (removeOne reply (replies s) \<noteq> []),
        downloadDocsetButton_text := ''Stop downloads'',
        downloadButton_enabled := False,
        updateButton_enabled := False,
        addFeedButton_enabled := False\<rparr>)"
  using assms wellFormed_removeOne [OF assms(1), of reply]
  by (simp add: downloadCompleted_def startDownload_def setProperty_def displayProgress_def
      redirectedReply_def Let_def map_update_fresh del: map_map)


lemma isRedirectD: "isRedirect fin \<Longrightarrow> replyError fin = NoError \<and> isValid (redirectionTarget fin)"
  by (simp add: isRedirect_def)

lemma wellFormed_redirect:
  assumes "wellFormed s" "isRedirect fin"
  shows "wellFormed (snd (downloadCompleted env reply fin s))"
proof -
  have "handle r < Suc (nextHandle s)" if "r \<in> set (removeOne reply (replies s))" for r
  proof -
    from that set_removeOne have "r \<in> set (replies s)" by blast
    with assms(1) have "handle r < nextHandle s" by (simp add: wellFormed_def list_all_iff)
    then show ?thesis by simp
  qed
  then show ?thesis
    using assms isRedirectD [OF assms(2)]
    by (simp add: downloadCompleted_redirect wellFormed_def list_all_iff redirectedReply_def)
qed

lemma sameProperties_redirectedReply: "sameProperties (redirectedReply env h reply target) reply"
  by (simp add: sameProperties_def redirectedReply_def)

lemma sameProperties_trans:
  "sameProperties a b \<Longrightarrow> sameProperties b c \<Longrightarrow> sameProperties a c"
  by (simp add: sameProperties_def)

lemma deliver_redirects:
  assumes "wellFormed s" "list_all isRedirect fins"
  shows "length (fst (deliver env reply fins s)) = length fins \<and>
         list_all (\<lambda>c. \<not> isTerminal c) (fst (deliver env reply fins s)) \<and>
         sameProperties (currentReply reply (fst (deliver env reply fins s))) reply \<and>
         wellFormed (snd (deliver env reply fins s)) \<and>
         nextHandle (snd (deliver env reply fins s)) = nextHandle s + length fins \<and>
         messages (snd (deliver env reply fins s)) = messages s"
  using assms
proof (induction fins arbitrary: reply s)
  case Nil
  then show ?case by (simp add: currentReply_def sameProperties_def)
next
  case (Cons fin fins)
  from Cons.prems have red: "isRedirect fin" and rest: "list_all isRedirect fins" by simp_all
  let ?new = "redirectedReply env (nextHandle s) reply (redirectionTarget fin)"
  let ?s1 = "snd (downloadCompleted env reply fin s)"
  have step: "fst (downloadCompleted env reply fin s) = Redirected ?new"
    using downloadCompleted_redirect [OF Cons.prems(1)] isRedirectD [OF red] by simp
  have wf1: "wellFormed ?s1" by (rule wellFormed_redirect [OF Cons.prems(1) red])
  have nh: "nextHandle ?s1 = Suc (nextHandle s)" and msg: "messages ?s1 = messages s"
    using downloadCompleted_redirect [OF Cons.prems(1)] isRedirectD [OF red] by simp_all
  note IH = Cons.IH [OF wf1 rest, of ?new]
  have unfold: "deliver env reply (fin # fins) s =
      (Redirected ?new # fst (deliver env ?new fins ?s1), snd (deliver env ?new fins ?s1))"
    by (simp add: split_beta step)
  have cur: "currentReply reply (Redirected ?new # cs) = currentReply ?new cs" for cs
    by (simp add: currentReply_def)
  have sp: "sameProperties (currentReply ?new (fst (deliver env ?new fins ?s1))) reply"
    using IH by (blast intro: sameProperties_trans sameProperties_redirectedReply)
  show ?case
    using IH nh msg sp
    by (simp add: unfold cur isTerminal_def del: deliver.simps)
qed

lemma deliver_append:
  assumes "wellFormed s" "list_all isRedirect fins"
  shows "deliver env reply (fins @ rest) s =
     (fst (deliver env reply fins s) @
        fst (deliver env (currentReply reply (fst (deliver env reply fins s))) rest
               (snd (deliver env reply fins s))),
      snd (deliver env (currentReply reply (fst (deliver env reply fins s))) rest
             (snd (deliver env reply fins s))))"
  using assms
proof (induction fins arbitrary: reply s)
  case Nil
  then show ?case by (simp add: currentReply_def)
next
  case (Cons fin fins)
  from Cons.prems have red: "isRedirect fin" and more: "list_all isRedirect fins" by simp_all
  let ?new = "redirectedReply env (nextHandle s) reply (redirectionTarget fin)"
  let ?s1 = "snd (downloadCompleted env reply fin s)"
  have step: "fst (downloadCompleted env reply fin s) = Redirected ?new"
    using downloadCompleted_redirect [OF Cons.prems(1)] isRedirectD [OF red] by simp
  have wf1: "wellFormed ?s1" by (rule wellFormed_redirect [OF Cons.prems(1) red])
  have cur: "currentReply reply (Redirected ?new # cs) = currentReply ?new cs" for cs
    by (simp add: currentReply_def)
  show ?case
    using Cons.IH [OF wf1 more, of ?new]
    by (simp add: split_beta cur step)
qed

lemma deliver_terminal:
  assumes "\<not> isRedirect fin"
  shows "deliver env reply (fin # rest) s = ([fst (downloadCompleted env reply fin s)],
            snd (downloadCompleted env reply fin s)) \<and>
         isTerminal (fst (downloadCompleted env reply fin s)) \<and>
         (replyError fin = NoError \<longrightarrow>
            fst (downloadCompleted env reply fin s) = Dispatched (downloadType env reply) reply)"
  using assms
  by (auto simp: isRedirect_def downloadCompleted_def Let_def isTerminal_def split_beta)


lemma filter_terminal_snoc:
  "list_all (\<lambda>c. \<not> isTerminal c) cs \<Longrightarrow> isTerminal c \<Longrightarrow> filter isTerminal (cs @ [c]) = [c]"
  by (induction cs) auto

lemma wellFormed_archiveDialog: "wellFormed archiveDialog"
  by code_simp


subsection \<open>Redirects\<close>

text \<open>
  C1: a reply that finished without error and carries a valid redirection target is
  answered by exactly one new reply, appended in place of the old one. Its URL is the
  target, resolved against the request URL of the old reply when the target is relative,
  and given the old URL's scheme when it still has none; its \<^verbatim>\<open>docsetMetadata\<close>,
  \<^verbatim>\<open>downloadType\<close> and \<^verbatim>\<open>listItem\<close> properties are those of the old reply. Nothing
  else changes but the handle counter and the widgets \<^verbatim>\<open>startDownload\<close> sets: no
  message is shown and the \<^verbatim>\<open>switch\<close> is not entered. Hence, when a transfer is
  redirected any number of times (\<open>fins\<close>) and then receives a response that is not a
  redirect (\<open>fin\<close>), exactly one of the completions is terminal, it is the last one, and
  when that response carries no error the \<^verbatim>\<open>switch\<close> runs on the download type of the
  first reply, for a reply with the first reply's metadata and list item.
\<close>

theorem redirect_keeps_purpose:
  assumes wf: "wellFormed s" and red: "isRedirect red" and chain: "list_all isRedirect fins"
    and final: "\<not> isRedirect fin"
  shows
    "downloadCompleted env reply red s =
       (Redirected
          \<lparr>handle = nextHandle s,
           requestUrl =
             (let target = redirectionTarget red;
                  u = (if scheme target = [] then resolved env (requestUrl reply) target
                       else target)
              in if scheme u = [] then u\<lparr>scheme := scheme (requestUrl reply)\<rparr> else u),
           docsetMetadataProperty = docsetMetadataProperty reply,
           downloadTypeProperty = downloadTypeProperty reply,
           downloadPreviousReceived = None,
           listItemIndexProperty = listItemIndexProperty reply\<rparr>,
        s\<lparr>replies := removeOne reply (replies s) @
                      [redirectedReply env (nextHandle s) reply (redirectionTarget red)],
          nextHandle := Suc (nextHandle s),
          docsetsProgress_visible := (removeOne reply (replies s) \<noteq> []),
          downloadDocsetButton_text := ''Stop downloads'',
          downloadButton_enabled := False,
          updateButton_enabled := False,
          addFeedButton_enabled := False\<rparr>)
     \<and> length (filter isTerminal (fst (deliver env reply (fins @ [fin]) s))) = 1
     \<and> isTerminal (last (fst (deliver env reply (fins @ [fin]) s)))
     \<and> (replyError fin = NoError \<longrightarrow>
          (\<exists>r. last (fst (deliver env reply (fins @ [fin]) s)) =
                 Dispatched (downloadType env reply) r \<and>
               downloadTypeProperty r = downloadTypeProperty reply \<and>
               docsetMetadataProperty r = docsetMetadataProperty reply \<and>
               listItemIndexProperty r = listItemIndexProperty reply))"
proof -
  let ?cs = "fst (deliver env reply fins s)"
  let ?s1 = "snd (deliver env reply fins s)"
  let ?cur = "currentReply reply ?cs"
  let ?c = "fst (downloadCompleted env ?cur fin ?s1)"
  have hop: "redirectedReply env (nextHandle s) reply (redirectionTarget red) =
      \<lparr>handle = nextHandle s,
       requestUrl =
         (let target = redirectionTarget red;
              u = (if scheme target = [] then resolved env (requestUrl reply) target
                   else target)
          in if scheme u = [] then u\<lparr>scheme := scheme (requestUrl reply)\<rparr> else u),
       docsetMetadataProperty = docsetMetadataProperty reply,
       downloadTypeProperty = downloadTypeProperty reply,
       downloadPreviousReceived = None,
       listItemIndexProperty = listItemIndexProperty reply\<rparr>"
    by (simp add: redirectedReply_def redirectedUrl_def isRelative_def setScheme_def Let_def)
  have single: "downloadCompleted env reply red s =
       (Redirected (redirectedReply env (nextHandle s) reply (redirectionTarget red)),
        s\<lparr>replies := removeOne reply (replies s) @
                      [redirectedReply env (nextHandle s) reply (redirectionTarget red)],
          nextHandle := Suc (nextHandle s),
          docsetsProgress_visible := (removeOne reply (replies s) \<noteq> []),
          downloadDocsetButton_text := ''Stop downloads'',
          downloadButton_enabled := False,
          updateButton_enabled := False,
          addFeedButton_enabled := False\<rparr>)"
    using downloadCompleted_redirect [OF wf] isRedirectD [OF red] by simp
  have pre: "list_all (\<lambda>c. \<not> isTerminal c) ?cs" and same: "sameProperties ?cur reply"
    using deliver_redirects [OF wf chain, of env reply] by simp_all
  have whole: "fst (deliver env reply (fins @ [fin]) s) = ?cs @ [?c]"
    using deliver_append [OF wf chain, of env reply "[fin]"]
      deliver_terminal [OF final, of env ?cur "[]" ?s1] by simp
  have fin_terminal: "isTerminal ?c"
    using deliver_terminal [OF final, of env ?cur "[]" ?s1] by simp
  have disp: "?c = Dispatched (downloadType env reply) ?cur" if "replyError fin = NoError"
  proof -
    have "downloadType env ?cur = downloadType env reply"
      using same by (simp add: downloadType_def sameProperties_def)
    then show ?thesis
      using deliver_terminal [OF final, of env ?cur "[]" ?s1] that by simp
  qed
  have one: "length (filter isTerminal (fst (deliver env reply (fins @ [fin]) s))) = 1"
    by (simp only: whole filter_terminal_snoc [OF pre fin_terminal]) simp
  have lst: "last (fst (deliver env reply (fins @ [fin]) s)) = ?c"
    by (simp add: whole)
  have ex: "replyError fin = NoError \<longrightarrow>
          (\<exists>r. last (fst (deliver env reply (fins @ [fin]) s)) =
                 Dispatched (downloadType env reply) r \<and>
               downloadTypeProperty r = downloadTypeProperty reply \<and>
               docsetMetadataProperty r = docsetMetadataProperty reply \<and>
               listItemIndexProperty r = listItemIndexProperty reply)"
    using disp same lst by (auto simp: sameProperties_def)
  show ?thesis
    using single one fin_terminal lst ex by (simp add: hop)
qed


theorem redirect_keeps_purpose_witness:
  "wellFormed archiveDialog
   \<and> isRedirect (redirectTo (relativeUrl ''/mirror/go.tgz''))
   \<and> list_all isRedirect
        [redirectTo (relativeUrl ''/mirror/go.tgz''), redirectTo (httpUrl ''//y/go.tgz'')]
   \<and> \<not> isRedirect (okResponse ''tgz'')
   \<and> length (filter isTerminal
         (fst (deliver env0 archiveReply
                ([redirectTo (relativeUrl ''/mirror/go.tgz''),
                  redirectTo (httpUrl ''//y/go.tgz'')] @ [okResponse ''tgz''])
                archiveDialog))) = 1
   \<and> (\<exists>r. last (fst (deliver env0 archiveReply
                ([redirectTo (relativeUrl ''/mirror/go.tgz''),
                  redirectTo (httpUrl ''//y/go.tgz'')] @ [okResponse ''tgz''])
                archiveDialog)) = Dispatched (downloadType env0 archiveReply) r
          \<and> downloadTypeProperty r = downloadTypeProperty archiveReply
          \<and> docsetMetadataProperty r = docsetMetadataProperty archiveReply
          \<and> listItemIndexProperty r = listItemIndexProperty archiveReply)"
proof -
  have h1: "wellFormed archiveDialog" by (rule wellFormed_archiveDialog)
  have h2: "isRedirect (redirectTo (relativeUrl ''/mirror/go.tgz''))"
    by (simp add: isRedirect_def redirectTo_def relativeUrl_def)
  have h3: "list_all isRedirect
        [redirectTo (relativeUrl ''/mirror/go.tgz''), redirectTo (httpUrl ''//y/go.tgz'')]"
    by (simp add: isRedirect_def redirectTo_def relativeUrl_def httpUrl_def)
  have h4: "\<not> isRedirect (okResponse ''tgz'')"
    by (simp add: isRedirect_def okResponse_def emptyUrl_def)
  have ok: "replyError (okResponse ''tgz'') = NoError"
    by (simp add: okResponse_def)
  from redirect_keeps_purpose [OF h1 h2 h3 h4, of env0 archiveReply] ok h1 h2 h3 h4
  show ?thesis by blast
qed

text \<open>
  C9 (as the code has it): \<^verbatim>\<open>downloadCompleted\<close> keeps no count of redirects. Every
  response of a chain of redirects starts one new reply, so a chain of \<open>n\<close> redirects is
  followed for exactly \<open>n\<close> hops, whatever \<open>n\<close> is, and none of these completions is
  terminal. Following ends at the first response that is not a redirect: the responses
  after it are not consumed.
\<close>

theorem redirects_followed_without_bound:
  assumes wf: "wellFormed s" and chain: "list_all isRedirect fins"
  shows "length (fst (deliver env reply fins s)) = length fins
     \<and> list_all (\<lambda>c. \<not> isTerminal c) (fst (deliver env reply fins s))
     \<and> nextHandle (snd (deliver env reply fins s)) = nextHandle s + length fins
     \<and> (\<not> isRedirect fin \<longrightarrow>
          deliver env reply (fins @ fin # rest) s = deliver env reply (fins @ [fin]) s)"
proof -
  have stop: "deliver env reply (fins @ fin # rest) s = deliver env reply (fins @ [fin]) s"
    if "\<not> isRedirect fin"
    using deliver_append [OF wf chain, of env reply "fin # rest"]
      deliver_append [OF wf chain, of env reply "[fin]"]
      deliver_terminal [OF that, of env _ rest]
      deliver_terminal [OF that, of env _ "[]"]
    by simp
  show ?thesis
    using deliver_redirects [OF wf chain, of env reply] stop by simp
qed


theorem redirects_followed_without_bound_witness:
  "wellFormed archiveDialog
   \<and> list_all isRedirect (replicate 11 (redirectTo (relativeUrl ''/go.tgz'')))
   \<and> length (fst (deliver env0 archiveReply
                 (replicate 11 (redirectTo (relativeUrl ''/go.tgz''))) archiveDialog))
       = length (replicate 11 (redirectTo (relativeUrl ''/go.tgz'')))
   \<and> nextHandle (snd (deliver env0 archiveReply
                 (replicate 11 (redirectTo (relativeUrl ''/go.tgz''))) archiveDialog))
       = nextHandle archiveDialog + length (replicate 11 (redirectTo (relativeUrl ''/go.tgz'')))"
proof -
  have h1: "wellFormed archiveDialog" by (rule wellFormed_archiveDialog)
  have h2: "list_all isRedirect (replicate 11 (redirectTo (relativeUrl ''/go.tgz'')))"
    by (simp add: list_all_iff isRedirect_def redirectTo_def relativeUrl_def)
  from redirects_followed_without_bound [OF h1 h2, of env0 archiveReply] h1 h2
  show ?thesis by blast
qed

text \<open>
  The claim C9 as stated, that the number of redirect hops of a transfer is bounded, is
  false: for every bound there is a chain of redirects that is followed for more hops.
\<close>

theorem redirect_hops_unbounded:
  "\<not> (\<exists>N. \<forall>n. length (filter (\<lambda>c. \<not> isTerminal c)
            (fst (deliver env0 archiveReply
                   (replicate n (redirectTo (relativeUrl ''/go.tgz''))) archiveDialog))) \<le> N)"
proof
  assume "\<exists>N. \<forall>n. length (filter (\<lambda>c. \<not> isTerminal c)
            (fst (deliver env0 archiveReply
                   (replicate n (redirectTo (relativeUrl ''/go.tgz''))) archiveDialog))) \<le> N"
  then obtain N where bound: "length (filter (\<lambda>c. \<not> isTerminal c)
            (fst (deliver env0 archiveReply
                   (replicate (Suc N) (redirectTo (relativeUrl ''/go.tgz''))) archiveDialog))) \<le> N"
    by blast
  have chain: "list_all isRedirect (replicate (Suc N) (redirectTo (relativeUrl ''/go.tgz'')))"
    by (simp add: list_all_iff isRedirect_def redirectTo_def relativeUrl_def)
  from deliver_redirects [OF wellFormed_archiveDialog chain, of env0 archiveReply]
  have "length (filter (\<lambda>c. \<not> isTerminal c)
            (fst (deliver env0 archiveReply
                   (replicate (Suc N) (redirectTo (relativeUrl ''/go.tgz''))) archiveDialog))) = Suc N"
    by (simp add: list_all_iff)
  with bound show False by simp
qed

subsection \<open>Feeds\<close>

lemma map_of_qmap_insert: "map_of (qmap_insert k v m) = (map_of m)(k \<mapsto> v)"
  by (induction m) (auto simp: fun_eq_iff)

lemma downloadCompleted_feed:
  assumes wf: "wellFormed s"
    and ok: "replyError fin = NoError" "\<not> isValid (redirectionTarget fin)"
    and ty: "downloadType env reply = DownloadDashFeed"
    and md: "fromDashFeed env (requestUrl reply) (body fin) = metadata"
    and us: "urls metadata \<noteq> []"
    and ver: "version metadata = [] \<or> version (metadataOf reply) \<noteq> version metadata"
  shows "downloadCompleted env reply fin s =
     (Dispatched DownloadDashFeed reply,
      s\<lparr>replies := removeOne reply (replies s) @
           [\<lparr>handle = nextHandle s, requestUrl = metadataUrl env metadata,
             docsetMetadataProperty = Some metadata,
             downloadTypeProperty = Some DownloadDocset,
             downloadPreviousReceived = None, listItemIndexProperty = None\<rparr>],
        m_userFeeds := qmap_insert (name metadata) metadata (m_userFeeds s),
        nextHandle := Suc (nextHandle s),
        docsetsProgress_visible := (removeOne reply (replies s) \<noteq> []),
        downloadDocsetButton_text := ''Stop downloads'',
        downloadButton_enabled := False,
        updateButton_enabled := False,
        addFeedButton_enabled := False\<rparr>)"
  using ok ty md us ver wellFormed_removeOne [OF wf, of reply]
  by (simp add: downloadCompleted_def case_DownloadDashFeed_def startDownload_def
      setProperty_def displayProgress_def Let_def map_update_fresh del: map_map)


text \<open>A feed whose version is not empty and equals the one the reply carries starts
  nothing and stores nothing: the reply is only removed.\<close>

lemma feed_same_version_no_download:
  assumes ok: "replyError fin = NoError" "\<not> isValid (redirectionTarget fin)"
    and ty: "downloadType env reply = DownloadDashFeed"
    and md: "fromDashFeed env (requestUrl reply) (body fin) = metadata"
    and us: "urls metadata \<noteq> []"
    and ver: "version metadata \<noteq> []" "version (metadataOf reply) = version metadata"
  shows "m_userFeeds (snd (downloadCompleted env reply fin s)) = m_userFeeds s
     \<and> replies (snd (downloadCompleted env reply fin s)) = removeOne reply (replies s)
     \<and> messages (snd (downloadCompleted env reply fin s)) = messages s"
  using ok ty md us ver
  by (simp add: downloadCompleted_def case_DownloadDashFeed_def resetProgress_def
      displayProgress_def Let_def)

text \<open>
  C2: a feed reply (download type \<^verbatim>\<open>DownloadDashFeed\<close>) that finished without error and
  without redirect, whose body parses to metadata with at least one URL. The previously
  stored version is the version of the metadata the reply carries in its
  \<^verbatim>\<open>docsetMetadata\<close> property (the metadata of the installed docset, set by
  \<^verbatim>\<open>updateFeedDocsets\<close>; for a feed added by \<^verbatim>\<open>addDashFeed\<close> there is none and the
  version reads as empty). If the new version is empty or differs from it, the new
  metadata is stored in \<^verbatim>\<open>m_userFeeds\<close> under its name, and exactly one reply is
  started, in place of the finished one: to the URL of the metadata, with download type
  \<^verbatim>\<open>DownloadDocset\<close>, carrying the new metadata. No message is shown. The state \<open>s\<close>
  is arbitrary, so this holds whatever was stored for that name before; with the first
  disjunct, a feed with an empty version always starts the archive download.
\<close>

theorem feed_starts_archive_download:
  assumes wf: "wellFormed s"
    and ok: "replyError fin = NoError" "\<not> isValid (redirectionTarget fin)"
    and ty: "downloadType env reply = DownloadDashFeed"
    and md: "fromDashFeed env (requestUrl reply) (body fin) = metadata"
    and us: "urls metadata \<noteq> []"
    and ver: "version metadata = [] \<or> version (metadataOf reply) \<noteq> version metadata"
  shows "map_of (m_userFeeds (snd (downloadCompleted env reply fin s))) (name metadata)
           = Some metadata
     \<and> replies (snd (downloadCompleted env reply fin s)) =
         removeOne reply (replies s) @
           [\<lparr>handle = nextHandle s, requestUrl = metadataUrl env metadata,
             docsetMetadataProperty = Some metadata,
             downloadTypeProperty = Some DownloadDocset,
             downloadPreviousReceived = None, listItemIndexProperty = None\<rparr>]
     \<and> messages (snd (downloadCompleted env reply fin s)) = messages s"
  by (simp add: downloadCompleted_feed [OF wf ok ty md us ver] map_of_qmap_insert)

theorem feed_starts_archive_download_witness:
  "wellFormed feedDialog
   \<and> replyError (okResponse []) = NoError
   \<and> \<not> isValid (redirectionTarget (okResponse []))
   \<and> downloadType env0 (last (replies feedDialog)) = DownloadDashFeed
   \<and> fromDashFeed env0 (requestUrl (last (replies feedDialog))) (body (okResponse []))
        = goMetadata []
   \<and> urls (goMetadata []) \<noteq> []
   \<and> version (goMetadata []) = []
   \<and> map_of (m_userFeeds feedDialog) ''go'' = Some (goMetadata ''1'')
   \<and> map_of (m_userFeeds (snd (downloadCompleted env0 (last (replies feedDialog))
                                   (okResponse []) feedDialog))) (name (goMetadata []))
        = Some (goMetadata [])
   \<and> replies (snd (downloadCompleted env0 (last (replies feedDialog))
                     (okResponse []) feedDialog)) =
         removeOne (last (replies feedDialog)) (replies feedDialog) @
           [\<lparr>handle = nextHandle feedDialog, requestUrl = metadataUrl env0 (goMetadata []),
             docsetMetadataProperty = Some (goMetadata []),
             downloadTypeProperty = Some DownloadDocset,
             downloadPreviousReceived = None, listItemIndexProperty = None\<rparr>]"
proof -
  have h1: "wellFormed feedDialog" by code_simp
  have h2: "replyError (okResponse []) = NoError" by (simp add: okResponse_def)
  have h3: "\<not> isValid (redirectionTarget (okResponse []))"
    by (simp add: okResponse_def emptyUrl_def)
  have h4: "downloadType env0 (last (replies feedDialog)) = DownloadDashFeed" by code_simp
  have h5: "fromDashFeed env0 (requestUrl (last (replies feedDialog))) (body (okResponse []))
        = goMetadata []"
    by (simp add: env0_def okResponse_def)
  have h6: "urls (goMetadata []) \<noteq> []" by (simp add: goMetadata_def)
  have h7: "version (goMetadata []) = []" by (simp add: goMetadata_def)
  have h8: "map_of (m_userFeeds feedDialog) ''go'' = Some (goMetadata ''1'')" by code_simp
  from feed_starts_archive_download [OF h1 h2 h3 h4 h5 h6 disjI1 [OF h7]] h1 h2 h3 h4 h5 h6 h7 h8
  show ?thesis by blast
qed

subsection \<open>The catalog\<close>

lemma name_catalogEntry: "name (catalogEntry v) = toString (jsonValue (toObject v) ''name'')"
  by (simp add: catalogEntry_def DocsetMetadata_fromJson_def jsonValue_def update_conv')

lemma map_of_foldl_insertEntry:
  "map_of (foldl insertEntry m list) =
     map_of m ++ map_of (rev (map (\<lambda>v. (name (catalogEntry v), catalogEntry v)) list))"
proof (induction list arbitrary: m)
  case Nil
  then show ?case by simp
next
  case (Cons v vs)
  have step: "map_of (insertEntry m v) = (map_of m)(name (catalogEntry v) \<mapsto> catalogEntry v)"
    by (simp add: insertEntry_def map_of_qmap_insert Let_def)
  show ?case
    using Cons.IH [of "insertEntry m v"]
    by (simp add: step fun_eq_iff map_add_def split: option.split)
qed

lemma keys_foldl_insertEntry:
  "fst ` set (foldl insertEntry m list) =
     fst ` set m \<union> (\<lambda>v. name (catalogEntry v)) ` set list"
proof -
  have "dom (map_of (foldl insertEntry m list)) =
      dom (map_of m) \<union>
      dom (map_of (rev (map (\<lambda>v. (name (catalogEntry v), catalogEntry v)) list)))"
    by (simp add: map_of_foldl_insertEntry Un_commute)
  then show ?thesis
    by (simp add: dom_map_of_conv_image_fst image_image)
qed

lemma last_wins:
  assumes "name (catalogEntry v) \<notin> (\<lambda>w. name (catalogEntry w)) ` set ys"
  shows "map_of (rev (map (\<lambda>v. (name (catalogEntry v), catalogEntry v)) (xs @ v # ys)))
           (name (catalogEntry v)) = Some (catalogEntry v)"
proof -
  have "map_of (rev (map (\<lambda>v. (name (catalogEntry v), catalogEntry v)) ys))
          (name (catalogEntry v)) = None"
    using assms by (simp add: map_of_eq_None_iff image_image)
  then show ?thesis by (simp add: map_add_def)
qed

text \<open>
  A completed catalog reply by itself adds the entries of its array to the mapping it
  finds; the mapping is emptied by \<^verbatim>\<open>downloadDocsetList\<close>, when the fetch is started.
\<close>

lemma catalog_completion_merges:
  assumes ok: "replyError fin = NoError" "\<not> isValid (redirectionTarget fin)"
    and ty: "downloadType env reply = DownloadDocsetList"
    and js: "fromJson env (body fin) = Inr list"
  shows "map_of (m_availableDocsets (snd (downloadCompleted env reply fin s))) =
     map_of (m_availableDocsets s) ++
     map_of (rev (map (\<lambda>v. (name (catalogEntry v), catalogEntry v)) list))"
proof -
  have "m_availableDocsets (snd (downloadCompleted env reply fin s)) =
      foldl insertEntry (m_availableDocsets s) list"
    using ok ty js
    by (simp add: downloadCompleted_def case_DownloadDocsetList_def processDocsetList_def
        resetProgress_def displayProgress_def Let_def)
  then show ?thesis by (simp only: map_of_foldl_insertEntry)
qed

text \<open>
  The mapping and the list are emptied when a fetch is started, and the reply that is
  started carries the type of a catalog fetch.
\<close>

lemma downloadDocsetList_clears:
  "m_availableDocsets (downloadDocsetList env s) = []
   \<and> availableDocsetList (downloadDocsetList env s) = []
   \<and> downloadType env (last (replies (downloadDocsetList env s))) = DownloadDocsetList"
  by (simp add: downloadDocsetList_def startDownload_def setProperty_def displayProgress_def
      downloadType_def Let_def)

text \<open>
  C5 (as the code has it): the completion of a catalog reply, in whatever state \<open>s\<close> of
  the dialog it happens, with a body that parses to the array \<open>list\<close>. The completion
  does not replace the mapping \<^verbatim>\<open>m_availableDocsets\<close>, it inserts into the mapping it
  finds: the keys afterwards are the keys before together with the \<^verbatim>\<open>name\<close> fields of
  the elements of \<open>list\<close>; the mapping is the one before, overridden by \<open>list\<close> read from
  its end, so of two elements with the same name the later one is stored; an entry whose
  name does not occur in \<open>list\<close> is kept as it was. The keys are exactly the names of
  \<open>list\<close> when the mapping is empty at the completion. The prior snapshot is dropped where
  a fetch is started: \<^verbatim>\<open>downloadDocsetList\<close> leaves the mapping and the list empty in
  every state \<open>s0\<close>, and the reply it starts is a catalog reply.
\<close>

theorem catalog_completion_merges_into_catalog:
  assumes ok: "replyError fin = NoError" "\<not> isValid (redirectionTarget fin)"
    and ty: "downloadType env reply = DownloadDocsetList"
    and js: "fromJson env (body fin) = Inr list"
  shows "fst ` set (m_availableDocsets (snd (downloadCompleted env reply fin s)))
           = fst ` set (m_availableDocsets s)
             \<union> (\<lambda>v. toString (jsonValue (toObject v) ''name'')) ` set list
     \<and> map_of (m_availableDocsets (snd (downloadCompleted env reply fin s)))
           = map_of (m_availableDocsets s) ++
             map_of (rev (map (\<lambda>v. (name (catalogEntry v), catalogEntry v)) list))
     \<and> (\<forall>xs v ys. list = xs @ v # ys \<and>
            name (catalogEntry v) \<notin> (\<lambda>w. name (catalogEntry w)) ` set ys \<longrightarrow>
          map_of (m_availableDocsets (snd (downloadCompleted env reply fin s)))
            (name (catalogEntry v)) = Some (catalogEntry v))
     \<and> (\<forall>k. k \<notin> (\<lambda>v. toString (jsonValue (toObject v) ''name'')) ` set list \<longrightarrow>
          map_of (m_availableDocsets (snd (downloadCompleted env reply fin s))) k
            = map_of (m_availableDocsets s) k)
     \<and> (m_availableDocsets s = [] \<longrightarrow>
          fst ` set (m_availableDocsets (snd (downloadCompleted env reply fin s)))
            = (\<lambda>v. toString (jsonValue (toObject v) ''name'')) ` set list)
     \<and> m_availableDocsets (downloadDocsetList env s0) = []
     \<and> availableDocsetList (downloadDocsetList env s0) = []
     \<and> downloadType env (last (replies (downloadDocsetList env s0))) = DownloadDocsetList"
proof -
  let ?s' = "snd (downloadCompleted env reply fin s)"
  let ?new = "rev (map (\<lambda>v. (name (catalogEntry v), catalogEntry v)) list)"
  let ?names = "(\<lambda>v. toString (jsonValue (toObject v) ''name'')) ` set list"
  have cat: "m_availableDocsets ?s' = foldl insertEntry (m_availableDocsets s) list"
    using ok ty js
    by (simp add: downloadCompleted_def case_DownloadDocsetList_def processDocsetList_def
        resetProgress_def displayProgress_def Let_def)
  have keys: "fst ` set (m_availableDocsets ?s') = fst ` set (m_availableDocsets s) \<union> ?names"
    by (simp add: cat keys_foldl_insertEntry name_catalogEntry)
  have mp: "map_of (m_availableDocsets ?s') = map_of (m_availableDocsets s) ++ map_of ?new"
    by (simp only: cat map_of_foldl_insertEntry)
  have lw: "map_of (m_availableDocsets ?s') (name (catalogEntry v)) = Some (catalogEntry v)"
    if "list = xs @ v # ys"
      and "name (catalogEntry v) \<notin> (\<lambda>w. name (catalogEntry w)) ` set ys" for xs v ys
  proof -
    have "map_of ?new (name (catalogEntry v)) = Some (catalogEntry v)"
      by (simp only: that(1) last_wins [OF that(2)])
    then show ?thesis by (simp add: mp map_add_def)
  qed
  have kept: "map_of (m_availableDocsets ?s') k = map_of (m_availableDocsets s) k"
    if "k \<notin> ?names" for k
  proof -
    have "k \<notin> fst ` set ?new"
      using that by (simp add: image_image name_catalogEntry)
    then have "map_of ?new k = None"
      by (simp add: map_of_eq_None_iff)
    then show ?thesis by (simp add: mp map_add_def)
  qed
  have exact: "fst ` set (m_availableDocsets ?s') = ?names" if "m_availableDocsets s = []"
    using keys that by simp
  note cl = downloadDocsetList_clears [of env s0]
  show ?thesis
    apply (intro conjI allI impI)
    subgoal by (rule keys)
    subgoal by (rule mp)
    subgoal for xs v ys by (rule lw [of xs v ys]) simp_all
    subgoal for k by (rule kept)
    subgoal by (rule exact)
    subgoal by (rule cl [THEN conjunct1])
    subgoal by (rule cl [THEN conjunct2, THEN conjunct1])
    subgoal by (rule cl [THEN conjunct2, THEN conjunct2])
    done
qed

theorem catalog_completion_merges_into_catalog_witness:
  "replyError (okResponse ''catalog'') = NoError
   \<and> \<not> isValid (redirectionTarget (okResponse ''catalog''))
   \<and> downloadType env1 (last (replies overlapDialog)) = DownloadDocsetList
   \<and> fromJson env1 (body (okResponse ''catalog'')) = Inr goCatalog
   \<and> map fst (m_availableDocsets overlapDialog) = [''rust'']
   \<and> fst ` set (m_availableDocsets
            (snd (downloadCompleted env1 (last (replies overlapDialog)) (okResponse ''catalog'')
                   overlapDialog)))
        = fst ` set (m_availableDocsets overlapDialog)
          \<union> (\<lambda>v. toString (jsonValue (toObject v) ''name'')) ` set goCatalog
   \<and> map_of (m_availableDocsets
            (snd (downloadCompleted env1 (last (replies overlapDialog)) (okResponse ''catalog'')
                   overlapDialog)))
        = map_of (m_availableDocsets overlapDialog) ++
          map_of (rev (map (\<lambda>v. (name (catalogEntry v), catalogEntry v)) goCatalog))
   \<and> map_of (m_availableDocsets staleDialog) ''rust'' \<noteq> None
   \<and> m_availableDocsets (downloadDocsetList env1 staleDialog) = []"
proof -
  have h1: "replyError (okResponse ''catalog'') = NoError" by (simp add: okResponse_def)
  have h2: "\<not> isValid (redirectionTarget (okResponse ''catalog''))"
    by (simp add: okResponse_def emptyUrl_def)
  have h3: "downloadType env1 (last (replies overlapDialog)) = DownloadDocsetList"
    by code_simp
  have h4: "fromJson env1 (body (okResponse ''catalog'')) = Inr goCatalog"
    by (simp add: env1_def env0_def okResponse_def)
  have h5: "map fst (m_availableDocsets overlapDialog) = [''rust'']" by code_simp
  have h6: "map_of (m_availableDocsets staleDialog) ''rust'' \<noteq> None"
    by (simp add: staleDialog_def)
  note t = catalog_completion_merges_into_catalog [OF h1 h2 h3 h4, of overlapDialog staleDialog]
  note t2 = t [THEN conjunct2]
  note t6 = t2 [THEN conjunct2, THEN conjunct2, THEN conjunct2, THEN conjunct2]
  show ?thesis
    using h1 h2 h3 h4 h5 h6 t [THEN conjunct1] t2 [THEN conjunct1] t6 [THEN conjunct1]
    by (intro conjI) assumption+
qed

text \<open>
  The claim C5 as stated, that the completion of a catalog fetch leaves exactly the names
  of its array as keys and drops every entry of a prior snapshot, is false. The docsets
  tab is shown twice before a reply arrives, so two catalog fetches are under way; the
  first completes with the catalog of \<^verbatim>\<open>rust\<close>, the second with the catalog of \<^verbatim>\<open>go\<close>,
  \<^verbatim>\<open>c\<close>, \<^verbatim>\<open>go\<close>. After the second completion the keys are \<^verbatim>\<open>c\<close>, \<^verbatim>\<open>go\<close> and \<^verbatim>\<open>rust\<close>:
  the entry of \<^verbatim>\<open>rust\<close>, absent from the array just processed, is still there.
\<close>

theorem overlapping_catalog_fetches_keep_stale_entry:
  "length (replies twoFetchDialog) = 2
   \<and> downloadType env1 (hd (replies twoFetchDialog)) = DownloadDocsetList
   \<and> downloadType env1 (last (replies overlapDialog)) = DownloadDocsetList
   \<and> fromJson env1 (body (okResponse ''old'')) = Inr rustCatalog
   \<and> fromJson env1 (body (okResponse ''catalog'')) = Inr goCatalog
   \<and> fst (downloadCompleted env1 (last (replies overlapDialog)) (okResponse ''catalog'')
            overlapDialog)
        = Dispatched DownloadDocsetList (last (replies overlapDialog))
   \<and> map fst (m_availableDocsets
            (snd (downloadCompleted env1 (last (replies overlapDialog)) (okResponse ''catalog'')
                   overlapDialog)))
        = [''c'', ''go'', ''rust'']
   \<and> map (\<lambda>v. toString (jsonValue (toObject v) ''name'')) goCatalog = [''go'', ''c'', ''go'']
   \<and> fst ` set (m_availableDocsets
            (snd (downloadCompleted env1 (last (replies overlapDialog)) (okResponse ''catalog'')
                   overlapDialog)))
        \<noteq> (\<lambda>v. toString (jsonValue (toObject v) ''name'')) ` set goCatalog"
proof -
  let ?s' = "snd (downloadCompleted env1 (last (replies overlapDialog)) (okResponse ''catalog'')
                   overlapDialog)"
  have c1: "length (replies twoFetchDialog) = 2" by code_simp
  have c2: "downloadType env1 (hd (replies twoFetchDialog)) = DownloadDocsetList" by code_simp
  have c3: "downloadType env1 (last (replies overlapDialog)) = DownloadDocsetList" by code_simp
  have c4: "fromJson env1 (body (okResponse ''old'')) = Inr rustCatalog"
    by (simp add: env1_def okResponse_def)
  have c5: "fromJson env1 (body (okResponse ''catalog'')) = Inr goCatalog"
    by (simp add: env1_def env0_def okResponse_def)
  have c6: "fst (downloadCompleted env1 (last (replies overlapDialog)) (okResponse ''catalog'')
            overlapDialog) = Dispatched DownloadDocsetList (last (replies overlapDialog))"
    by code_simp
  have c7: "map fst (m_availableDocsets ?s') = [''c'', ''go'', ''rust'']" by code_simp
  have c8: "map (\<lambda>v. toString (jsonValue (toObject v) ''name'')) goCatalog = [''go'', ''c'', ''go'']"
    by (simp add: goCatalog_def jsonValue_def toObject_def toString_def)
  have l: "fst ` set (m_availableDocsets ?s') = set (map fst (m_availableDocsets ?s'))"
    by simp
  have r: "(\<lambda>v. toString (jsonValue (toObject v) ''name'')) ` set goCatalog
      = set (map (\<lambda>v. toString (jsonValue (toObject v) ''name'')) goCatalog)"
    by simp
  have c9: "fst ` set (m_availableDocsets ?s')
      \<noteq> (\<lambda>v. toString (jsonValue (toObject v) ''name'')) ` set goCatalog"
  proof
    assume "fst ` set (m_availableDocsets ?s')
      = (\<lambda>v. toString (jsonValue (toObject v) ''name'')) ` set goCatalog"
    then have "set [''c'', ''go'', ''rust''] = set [''go'', ''c'', ''go'']"
      by (simp only: l r c7 c8)
    moreover have "''rust'' \<in> set [''c'', ''go'', ''rust'']" by simp
    moreover have "''rust'' \<notin> set [''go'', ''c'', ''go'']" by simp
    ultimately show False by simp
  qed
  show ?thesis
    using c1 c2 c3 c4 c5 c6 c7 c8 c9 by (intro conjI) assumption+
qed

subsection \<open>Stopping the downloads\<close>

text \<open>
  What \<^verbatim>\<open>stopDownloads\<close> does in general: \<^verbatim>\<open>abort()\<close> is called on exactly the
  replies whose \<^verbatim>\<open>listItem\<close> property is the row of an existing list item; the list of
  replies is untouched by the loop; the counters are reset. A reply that finishes with
  \<^verbatim>\<open>OperationCanceledError\<close> shows no message (\<open>downloadCompleted_error\<close>).
\<close>

lemma length_list_stopLoop:
  "length (availableDocsetList (snd (stopLoop rs s))) = length (availableDocsetList s)"
  by (induction rs arbitrary: s) (auto simp: updateItem_def split_beta Let_def split: option.split)

lemma item_updateItem: "item i (updateItem j f s) = item i s"
  by (simp add: item_def updateItem_def)

lemma stopLoop_aborted:
  "fst (stopLoop rs s) = filter (\<lambda>r. item (listItemIndex r) s \<noteq> None) rs"
proof (induction rs arbitrary: s)
  case Nil
  then show ?case by simp
next
  case (Cons r rs)
  show ?case
  proof (cases "item (listItemIndex r) s")
    case None
    then show ?thesis using Cons.IH [of s] by simp
  next
    case (Some i)
    have "filter (\<lambda>r. item (listItemIndex r) (updateItem i (\<lambda>it. it\<lparr>showProgress := False\<rparr>) s) \<noteq> None) rs
        = filter (\<lambda>r. item (listItemIndex r) s \<noteq> None) rs"
      by (simp add: item_updateItem)
    then show ?thesis
      using Some Cons.IH [of "updateItem i (\<lambda>it. it\<lparr>showProgress := False\<rparr>) s"]
      by (simp add: split_beta)
  qed
qed

lemma stopLoop_keeps_replies: "replies (snd (stopLoop rs s)) = replies s"
  by (induction rs arbitrary: s) (auto simp: updateItem_def split_beta Let_def split: option.split)

lemma stopDownloads_resets:
  "m_combinedReceived (snd (stopDownloads s)) = 0 \<and> m_combinedTotal (snd (stopDownloads s)) = 0"
  by (simp add: stopDownloads_def resetProgress_def displayProgress_def split_beta Let_def)

text \<open>
  C3 (the code departs from it): the claim says that \<^verbatim>\<open>stopDownloads\<close> aborts every
  active reply. In the dialog right after the catalog fetch was started there is one
  active reply and the list of available docsets is empty, so the item looked up for the
  reply is null, the loop body ends at \<^verbatim>\<open>continue\<close>, and \<^verbatim>\<open>abort()\<close> is not called:
  no reply is aborted and the reply stays active.
\<close>

theorem stopDownloads_leaves_catalog_fetch:
  "replies (catalogFetchDialog env) =
      [\<lparr>handle = 0, requestUrl = urlFromString env ''http://api.zealdocs.org/docsets'',
        docsetMetadataProperty = None, downloadTypeProperty = Some DownloadDocsetList,
        downloadPreviousReceived = None, listItemIndexProperty = None\<rparr>]
   \<and> fst (stopDownloads (catalogFetchDialog env)) = []
   \<and> replies (snd (stopDownloads (catalogFetchDialog env))) = replies (catalogFetchDialog env)"
  by (simp add: stopDownloads_def stopLoop_keeps_replies resetProgress_def displayProgress_def
      split_beta Let_def stopLoop_aborted catalogFetchDialog_def downloadDocsetList_def
      startDownload_def setProperty_def initialDialog_def item_def listItemIndex_def ApiUrl_def)

subsection \<open>The last reply\<close>

text \<open>
  A reply that finishes with an error leaves \<^verbatim>\<open>downloadCompleted\<close> at the first
  \<^verbatim>\<open>return\<close>: the counters and the buttons stay as they were. A reply that reaches the
  \<^verbatim>\<open>switch\<close> and leaves no reply active resets the counters and enables the buttons.
\<close>

lemma downloadCompleted_error_keeps_progress:
  assumes "replyError fin \<noteq> NoError"
  shows "m_combinedReceived (snd (downloadCompleted env reply fin s)) = m_combinedReceived s
     \<and> m_combinedTotal (snd (downloadCompleted env reply fin s)) = m_combinedTotal s
     \<and> downloadButton_enabled (snd (downloadCompleted env reply fin s)) = downloadButton_enabled s
     \<and> updateButton_enabled (snd (downloadCompleted env reply fin s)) = updateButton_enabled s
     \<and> addFeedButton_enabled (snd (downloadCompleted env reply fin s)) = addFeedButton_enabled s"
  using assms by (simp add: downloadCompleted_error)

lemma replies_resetProgress: "replies (resetProgress s) = replies s"
  by (simp add: resetProgress_def displayProgress_def Let_def)

lemma downloadCompleted_dispatch_resets:
  assumes "replyError fin = NoError" "\<not> isValid (redirectionTarget fin)"
    and "replies (snd (downloadCompleted env reply fin s)) = []"
  shows "m_combinedReceived (snd (downloadCompleted env reply fin s)) = 0
     \<and> m_combinedTotal (snd (downloadCompleted env reply fin s)) = 0
     \<and> downloadButton_enabled (snd (downloadCompleted env reply fin s))
     \<and> updateButton_enabled (snd (downloadCompleted env reply fin s))
     \<and> addFeedButton_enabled (snd (downloadCompleted env reply fin s))
     \<and> availableDocsetList_enabled (snd (downloadCompleted env reply fin s))"
  using assms
  by (simp add: downloadCompleted_def Let_def replies_resetProgress split: if_splits)
    (simp add: resetProgress_def displayProgress_def Let_def)

text \<open>
  C7 (the code departs from it): the claim says that a completion that empties the set
  of active replies resets the counters and enables the buttons again, for every outcome.
  The catalog fetch is the only active reply, it has reported 20480 of 40960 bytes, and
  it finishes with a network error: the set of active replies is empty afterwards, but
  the counters still read (20480, 40960) and the three buttons \<^verbatim>\<open>startDownload\<close>
  disabled are still disabled.
\<close>

theorem network_error_on_last_reply_keeps_progress:
  "replies (progressDialog env) =
      [\<lparr>handle = 0, requestUrl = urlFromString env ''http://api.zealdocs.org/docsets'',
        docsetMetadataProperty = None, downloadTypeProperty = Some DownloadDocsetList,
        downloadPreviousReceived = Some 20480, listItemIndexProperty = None\<rparr>]
   \<and> fst (downloadCompleted env (last (replies (progressDialog env)))
            (failedResponse OtherError ''Host not found'') (progressDialog env)) = NetworkFailure
   \<and> replies (snd (downloadCompleted env (last (replies (progressDialog env)))
            (failedResponse OtherError ''Host not found'') (progressDialog env))) = []
   \<and> m_combinedReceived (snd (downloadCompleted env (last (replies (progressDialog env)))
            (failedResponse OtherError ''Host not found'') (progressDialog env))) = 20480
   \<and> m_combinedTotal (snd (downloadCompleted env (last (replies (progressDialog env)))
            (failedResponse OtherError ''Host not found'') (progressDialog env))) = 40960
   \<and> \<not> downloadButton_enabled (snd (downloadCompleted env (last (replies (progressDialog env)))
            (failedResponse OtherError ''Host not found'') (progressDialog env)))
   \<and> \<not> updateButton_enabled (snd (downloadCompleted env (last (replies (progressDialog env)))
            (failedResponse OtherError ''Host not found'') (progressDialog env)))
   \<and> \<not> addFeedButton_enabled (snd (downloadCompleted env (last (replies (progressDialog env)))
            (failedResponse OtherError ''Host not found'') (progressDialog env)))"
proof -
  have rs: "replies (progressDialog env) =
      [\<lparr>handle = 0, requestUrl = urlFromString env ''http://api.zealdocs.org/docsets'',
        docsetMetadataProperty = None, downloadTypeProperty = Some DownloadDocsetList,
        downloadPreviousReceived = Some 20480, listItemIndexProperty = None\<rparr>]"
    and cnt: "m_combinedReceived (progressDialog env) = 20480"
      "m_combinedTotal (progressDialog env) = 40960"
    and btn: "\<not> downloadButton_enabled (progressDialog env)"
      "\<not> updateButton_enabled (progressDialog env)"
      "\<not> addFeedButton_enabled (progressDialog env)"
    by (simp_all add: progressDialog_def catalogFetchDialog_def on_downloadProgress_def
        downloadDocsetList_def startDownload_def setProperty_def displayProgress_def
        initialDialog_def ApiUrl_def Let_def)
  have err: "replyError (failedResponse OtherError ''Host not found'') \<noteq> NoError"
    "replyError (failedResponse OtherError ''Host not found'') \<noteq> OperationCanceledError"
    by (simp_all add: failedResponse_def)
  show ?thesis
    using rs cnt btn err
    by (simp add: downloadCompleted_error [OF err(1)])
qed

subsection \<open>The end of an extraction\<close>

text \<open>
  \<^verbatim>\<open>extractionError\<close> takes the entry whose key is the base name of the file path
  followed by \<^verbatim>\<open>.docset\<close>; when \<^verbatim>\<open>m_tmpFiles\<close> has no such key, the table and the
  temporary files are as before.
\<close>

lemma deleteTake_absent:
  "map_of (m_tmpFiles s) k = None \<Longrightarrow> deleteTake k s = s"
  by (simp add: deleteTake_def)

lemma extractionError_wrong_key:
  assumes "map_of (m_tmpFiles s) (baseName filePath @ ''.docset'') = None"
  shows "m_tmpFiles (extractionError filePath msg s) = m_tmpFiles s
     \<and> tmpOnDisk (extractionError filePath msg s) = tmpOnDisk s"
  using assms by (simp add: extractionError_def deleteTake_def Let_def)

text \<open>
  C8 (the code departs from it): the claim says that the pending install is removed and
  its temporary file deleted when the extraction ends, on completion and on error. The
  archive of \<^verbatim>\<open>go\<close> was written to \<^verbatim>\<open>/tmp/zeal.a\<close> and is pending under the key
  \<^verbatim>\<open>go\<close>. When the extraction of that file reports an error, the key taken from
  \<^verbatim>\<open>m_tmpFiles\<close> is \<^verbatim>\<open>zeal.docset\<close>: the entry stays and the file is not deleted.
  When it reports completion, the entry is removed and the file deleted.
\<close>

theorem extractionError_keeps_temp_file:
  "m_tmpFiles installingDialog = [(''go'', ''/tmp/zeal.a'')]
   \<and> tmpOnDisk installingDialog = {''/tmp/zeal.a''}
   \<and> m_tmpFiles (extractionError ''/tmp/zeal.a'' ''corrupt'' installingDialog)
        = [(''go'', ''/tmp/zeal.a'')]
   \<and> tmpOnDisk (extractionError ''/tmp/zeal.a'' ''corrupt'' installingDialog) = {''/tmp/zeal.a''}
   \<and> m_tmpFiles (extractionCompleted ''/tmp/zeal.a'' installingDialog) = []
   \<and> tmpOnDisk (extractionCompleted ''/tmp/zeal.a'' installingDialog) = {}"
  by code_simp

subsection \<open>Deleting a docset\<close>

text \<open>
  C4: once the user has confirmed, \<^verbatim>\<open>on_deleteButton_clicked\<close> removes the docset from
  the registry before the directory is touched (whether or not the data directory
  exists), and shows no message. When the removal of the directory was started and
  reports failure, exactly one message is added, the warning that the docset cannot be
  deleted; the registry is as the click left it and does not contain the name.
\<close>

theorem delete_not_rolled_back:
  assumes "answer \<noteq> No"
  shows "\<not> registry_contains docsetName
            (m_docsetRegistry (snd (on_deleteButton_clicked docsetTitle docsetName answer dataDirExists s)))
     \<and> fst (on_deleteButton_clicked docsetTitle docsetName answer True s)
     \<and> messages (snd (on_deleteButton_clicked docsetTitle docsetName answer True s)) = messages s
     \<and> messages (deleteFinished False docsetTitle
            (snd (on_deleteButton_clicked docsetTitle docsetName answer True s)))
         = messages s @ [Warning ''Error'' (''Cannot delete docset <b>'' @ docsetTitle @ ''</b>!'')]
     \<and> m_docsetRegistry (deleteFinished False docsetTitle
            (snd (on_deleteButton_clicked docsetTitle docsetName answer True s)))
         = m_docsetRegistry (snd (on_deleteButton_clicked docsetTitle docsetName answer True s))
     \<and> \<not> registry_contains docsetName
            (m_docsetRegistry (deleteFinished False docsetTitle
               (snd (on_deleteButton_clicked docsetTitle docsetName answer True s))))"
  using assms
  by (simp add: on_deleteButton_clicked_def deleteFinished_def registry_contains_def
      registry_remove_def displayProgress_def resetProgress_def updateItem_def Let_def
      split: option.split)

theorem delete_not_rolled_back_witness:
  "Yes \<noteq> No
   \<and> registry_contains ''go'' (m_docsetRegistry installedDialog)
   \<and> \<not> registry_contains ''go''
         (m_docsetRegistry (snd (on_deleteButton_clicked ''Golang'' ''go'' Yes True installedDialog)))
   \<and> messages (deleteFinished False ''Golang''
            (snd (on_deleteButton_clicked ''Golang'' ''go'' Yes True installedDialog)))
         = messages installedDialog @
             [Warning ''Error'' (''Cannot delete docset <b>'' @ ''Golang'' @ ''</b>!'')]
   \<and> \<not> registry_contains ''go''
         (m_docsetRegistry (deleteFinished False ''Golang''
            (snd (on_deleteButton_clicked ''Golang'' ''go'' Yes True installedDialog))))"
proof -
  have h1: "Yes \<noteq> No" by simp
  have h2: "registry_contains ''go'' (m_docsetRegistry installedDialog)" by code_simp
  from delete_not_rolled_back [OF h1, of "''go''" "''Golang''" True installedDialog] h1 h2
  show ?thesis by blast
qed

subsection \<open>Requesting an archive that is not in the catalog\<close>

text \<open>
  C10: for a docset name that is not a key of the catalog mapping, \<^verbatim>\<open>downloadDashDocset\<close>
  returns at once: the whole dialog state is the one before the call. No reply is
  started, no message is shown, and the active replies, the progress counters, the user
  feeds and the temp-file table are unchanged.
\<close>

theorem downloadDashDocset_unknown_noop:
  assumes "\<not> qmap_contains docset (m_availableDocsets s)"
  shows "downloadDashDocset env rnd docset s = s"
  using assms by (simp add: downloadDashDocset_def)

theorem downloadDashDocset_unknown_noop_witness:
  "\<not> qmap_contains ''rust'' (m_availableDocsets catalogDialog)
   \<and> downloadDashDocset env0 7 ''rust'' catalogDialog = catalogDialog"
proof -
  have h: "\<not> qmap_contains ''rust'' (m_availableDocsets catalogDialog)"
    by code_simp
  from downloadDashDocset_unknown_noop [OF h, of env0 7] h show ?thesis by blast
qed

subsection \<open>The percentage\<close>

text \<open>The exponent brackets its argument; rounding is monotone and has a relative error
  of at most \<open>1 / 2 ^ 53\<close>.\<close>

lemma bitlen_rat:
  assumes "0 < k"
  shows "(of_int k :: rat) < 2 powi bitlen k" and "(2 :: rat) powi (bitlen k - 1) \<le> of_int k"
proof -
  from bitlen_bounds [OF assms]
  have lo: "2 ^ nat (bitlen k - 1) \<le> k" and hi: "k < 2 ^ nat (bitlen k)" by simp_all
  have pos: "1 \<le> bitlen k"
    using assms bitlen_eq_zero_iff [of k] bitlen_nonneg [of k] by arith
  have "(of_int k :: rat) < of_int (2 ^ nat (bitlen k))"
    using hi by (simp only: of_int_less_iff)
  then show "(of_int k :: rat) < 2 powi bitlen k"
    using pos by (simp add: power_int_nonneg_exp)
  have "(of_int (2 ^ nat (bitlen k - 1)) :: rat) \<le> of_int k"
    using lo by (simp only: of_int_le_iff)
  then show "(2 :: rat) powi (bitlen k - 1) \<le> of_int k"
    using pos by (simp add: power_int_nonneg_exp)
qed

lemma exponentOf_bracket:
  assumes "0 < x"
  shows "2 powi exponentOf x \<le> x" and "x < 2 powi (exponentOf x + 1)"
proof -
  obtain p q where pq: "quotient_of x = (p, q)" by (cases "quotient_of x")
  have q: "0 < q" using quotient_of_denom_pos [OF pq] .
  have x: "x = of_int p / of_int q" using quotient_of_div [OF pq] .
  have p: "0 < p" using assms q x by (simp add: zero_less_divide_iff)
  define d where "d = bitlen p - bitlen q"
  have qpos: "(0 :: rat) < of_int q" and ppos: "(0 :: rat) < of_int p" using p q by simp_all
  have d1: "(2 :: rat) powi (d + 1) = 2 powi bitlen p / 2 powi (bitlen q - 1)"
    by (simp add: d_def power_int_diff power_int_add)
  have dm: "(2 :: rat) powi (d - 1) = 2 powi (bitlen p - 1) / 2 powi bitlen q"
    by (simp add: d_def power_int_diff)
  have hi: "x < 2 powi (d + 1)"
    unfolding x d1
    using bitlen_rat(1) [OF p] bitlen_rat(2) [OF q] ppos
    by (intro frac_less) simp_all
  have lo: "2 powi (d - 1) < x"
    unfolding x dm
    using bitlen_rat(2) [OF p] bitlen_rat(1) [OF q] qpos
    by (intro frac_less2) simp_all
  have e: "exponentOf x = (if x < 2 powi d then d - 1 else d)"
    by (simp add: exponentOf_def pq d_def Let_def)
  show "2 powi exponentOf x \<le> x"
    using lo by (simp add: e)
  show "x < 2 powi (exponentOf x + 1)"
    using hi by (simp add: e)
qed

lemma exponentOf_mono:
  assumes "0 < x" "x \<le> y"
  shows "exponentOf x \<le> exponentOf y"
proof (rule ccontr)
  assume "\<not> exponentOf x \<le> exponentOf y"
  then have "exponentOf y + 1 \<le> exponentOf x" by simp
  then have "(2 :: rat) powi (exponentOf y + 1) \<le> 2 powi exponentOf x"
    by (intro power_int_increasing) simp_all
  moreover have "y < 2 powi (exponentOf y + 1)"
    using exponentOf_bracket(2) [of y] assms by simp
  moreover have "2 powi exponentOf x \<le> x"
    using exponentOf_bracket(1) [OF assms(1)] .
  ultimately show False using assms(2) by simp
qed

lemma roundHalfEven_of_int: "roundHalfEven (of_int k) = k"
  by (simp add: roundHalfEven_def)

lemma roundHalfEven_bounds: "\<lfloor>x\<rfloor> \<le> roundHalfEven x" "roundHalfEven x \<le> \<lfloor>x\<rfloor> + 1"
  by (simp_all add: roundHalfEven_def Let_def)

lemma roundHalfEven_mono:
  assumes "x \<le> y"
  shows "roundHalfEven x \<le> roundHalfEven y"
proof (cases "\<lfloor>x\<rfloor> < \<lfloor>y\<rfloor>")
  case True
  then show ?thesis
    using roundHalfEven_bounds(2) [of x] roundHalfEven_bounds(1) [of y] by simp
next
  case False
  with assms have eq: "\<lfloor>x\<rfloor> = \<lfloor>y\<rfloor>" using floor_mono [OF assms] by simp
  show ?thesis
    using assms by (simp add: roundHalfEven_def Let_def eq)
qed

lemma roundHalfEven_ge: "of_int k \<le> x \<Longrightarrow> k \<le> roundHalfEven x"
  using roundHalfEven_mono [of "of_int k" x] by (simp add: roundHalfEven_of_int)

lemma roundHalfEven_le: "x \<le> of_int k \<Longrightarrow> roundHalfEven x \<le> k"
  using roundHalfEven_mono [of x "of_int k"] by (simp add: roundHalfEven_of_int)

lemma toDouble_pos:
  assumes "0 < x"
  shows "toDouble x =
    of_int (roundHalfEven (x / 2 powi (exponentOf x - 52))) * 2 powi (exponentOf x - 52)"
  using assms by (simp add: toDouble_def Let_def)

lemma toDouble_bracket:
  assumes "0 < x"
  shows "2 powi exponentOf x \<le> toDouble x" and "toDouble x \<le> 2 powi (exponentOf x + 1)"
proof -
  define u :: rat where "u = 2 powi (exponentOf x - 52)"
  have u: "0 < u" by (simp add: u_def)
  have lo: "2 powi exponentOf x = 2 ^ 52 * u"
    and hi: "2 powi (exponentOf x + 1) = 2 ^ 53 * u"
    by (simp_all add: u_def power_int_diff power_int_add)
  have "2 ^ 52 * u \<le> x" and "x \<le> 2 ^ 53 * u"
    using exponentOf_bracket [OF assms] by (simp_all add: lo hi)
  then have b1: "of_int (2 ^ 52) \<le> x / u" and b2: "x / u \<le> of_int (2 ^ 53)"
    using u by (simp_all add: field_simps)
  have "2 ^ 52 \<le> roundHalfEven (x / u)" and "roundHalfEven (x / u) \<le> 2 ^ 53"
    using roundHalfEven_ge [OF b1] roundHalfEven_le [OF b2] by simp_all
  then have "(of_int (2 ^ 52) :: rat) \<le> of_int (roundHalfEven (x / u))"
    and "(of_int (roundHalfEven (x / u)) :: rat) \<le> of_int (2 ^ 53)"
    by (simp_all only: of_int_le_iff)
  then have "2 ^ 52 * u \<le> of_int (roundHalfEven (x / u)) * u"
    and "of_int (roundHalfEven (x / u)) * u \<le> 2 ^ 53 * u"
    using u by simp_all
  then show "2 powi exponentOf x \<le> toDouble x" and "toDouble x \<le> 2 powi (exponentOf x + 1)"
    by (simp_all add: toDouble_pos [OF assms] lo hi flip: u_def)
qed

lemma toDouble_zero: "toDouble 0 = 0"
  by (simp add: toDouble_def)

lemma toDouble_positive: "0 < x \<Longrightarrow> 0 < toDouble x"
  using toDouble_bracket(1) [of x] by (simp add: less_le_trans [of 0 "2 powi exponentOf x"])

lemma toDouble_mono_pos:
  assumes "0 < x" "x \<le> y"
  shows "toDouble x \<le> toDouble y"
proof (cases "exponentOf x = exponentOf y")
  case True
  have y: "0 < y" using assms by simp
  have "roundHalfEven (x / 2 powi (exponentOf y - 52))
      \<le> roundHalfEven (y / 2 powi (exponentOf y - 52))"
    using assms(2) by (intro roundHalfEven_mono divide_right_mono) simp_all
  then have "(of_int (roundHalfEven (x / 2 powi (exponentOf y - 52))) :: rat)
      \<le> of_int (roundHalfEven (y / 2 powi (exponentOf y - 52)))"
    by (simp only: of_int_le_iff)
  then show ?thesis
    by (simp add: toDouble_pos [OF assms(1)] toDouble_pos [OF y] True)
next
  case False
  have y: "0 < y" using assms by simp
  from False exponentOf_mono [OF assms] have "exponentOf x + 1 \<le> exponentOf y" by simp
  then have "(2 :: rat) powi (exponentOf x + 1) \<le> 2 powi exponentOf y"
    by (intro power_int_increasing) simp_all
  with toDouble_bracket(2) [OF assms(1)] toDouble_bracket(1) [OF y]
  show ?thesis by simp
qed

lemma toDouble_mono:
  assumes "0 \<le> x" "x \<le> y"
  shows "toDouble x \<le> toDouble y"
proof (cases "x = 0")
  case True
  show ?thesis
  proof (cases "y = 0")
    case True
    with \<open>x = 0\<close> show ?thesis by simp
  next
    case False
    with assms True have "0 < y" by simp
    from toDouble_positive [OF this] True show ?thesis by (simp add: toDouble_zero)
  qed
next
  case False
  with assms have "0 < x" by simp
  then show ?thesis using assms(2) by (rule toDouble_mono_pos)
qed

lemma toDouble_nonneg: "0 \<le> x \<Longrightarrow> 0 \<le> toDouble x"
  using toDouble_mono [of 0 x] by (simp add: toDouble_zero)


lemma percent_doubleProduct:
  "total' \<noteq> 0 \<Longrightarrow> percent fraction total' =
     (if - (2 ^ 31) \<le> truncate (doubleProduct fraction total') \<and>
         truncate (doubleProduct fraction total') < 2 ^ 31
      then Some (truncate (doubleProduct fraction total')) else None)"
  by (simp add: percent_def doubleProduct_def Let_def)

lemma toDouble_1: "toDouble 1 = 1" by code_simp

lemma toDouble_100: "toDouble 100 = 100" by code_simp

lemma doubleProduct_mono:
  assumes "0 \<le> r1" "r1 \<le> r2" "0 < total'"
  shows "0 \<le> doubleProduct r1 total'" and "doubleProduct r1 total' \<le> doubleProduct r2 total'"
proof -
  have b: "0 < toDouble (of_int total')"
    using assms(3) by (intro toDouble_positive) simp
  have a1: "0 \<le> toDouble (of_int r1)"
    using assms(1) by (intro toDouble_nonneg) simp
  have a12: "toDouble (of_int r1) \<le> toDouble (of_int r2)"
    using assms(1,2) by (intro toDouble_mono) simp_all
  have q1: "0 \<le> toDouble (of_int r1) / toDouble (of_int total')"
    using a1 b by simp
  have q12: "toDouble (of_int r1) / toDouble (of_int total')
      \<le> toDouble (of_int r2) / toDouble (of_int total')"
    using a12 b by (simp add: divide_right_mono)
  have f1: "0 \<le> toDouble (toDouble (of_int r1) / toDouble (of_int total'))"
    using q1 by (rule toDouble_nonneg)
  have f12: "toDouble (toDouble (of_int r1) / toDouble (of_int total'))
      \<le> toDouble (toDouble (of_int r2) / toDouble (of_int total'))"
    using q1 q12 by (rule toDouble_mono)
  show "0 \<le> doubleProduct r1 total'"
    unfolding doubleProduct_def using f1 by (intro toDouble_nonneg) simp
  show "doubleProduct r1 total' \<le> doubleProduct r2 total'"
    unfolding doubleProduct_def using f1 f12 by (intro toDouble_mono) simp_all
qed

lemma doubleProduct_le_100:
  assumes "0 \<le> fraction" "fraction \<le> total'" "0 < total'"
  shows "doubleProduct fraction total' \<le> 100"
proof -
  have b: "0 < toDouble (of_int total')"
    using assms(3) by (intro toDouble_positive) simp
  have a: "0 \<le> toDouble (of_int fraction)"
    using assms(1) by (intro toDouble_nonneg) simp
  have ab: "toDouble (of_int fraction) \<le> toDouble (of_int total')"
    using assms(1,2) by (intro toDouble_mono) simp_all
  have q0: "0 \<le> toDouble (of_int fraction) / toDouble (of_int total')"
    using a b by simp
  have q1: "toDouble (of_int fraction) / toDouble (of_int total') \<le> 1"
    using ab b by simp
  have f1: "toDouble (toDouble (of_int fraction) / toDouble (of_int total')) \<le> 1"
    using toDouble_mono [OF q0 q1] by (simp add: toDouble_1)
  have f0: "0 \<le> toDouble (toDouble (of_int fraction) / toDouble (of_int total'))"
    using q0 by (rule toDouble_nonneg)
  have "toDouble (toDouble (toDouble (of_int fraction) / toDouble (of_int total')) * 100)
      \<le> toDouble 100"
    using f0 f1 by (intro toDouble_mono) simp_all
  then show ?thesis by (simp add: doubleProduct_def toDouble_100)
qed

lemma truncate_nonneg: "0 \<le> x \<Longrightarrow> truncate x = \<lfloor>x\<rfloor>"
  by (simp add: truncate_def)

lemma percent_in_range:
  assumes "0 \<le> fraction" "fraction \<le> total'" "0 < total'"
  shows "\<exists>p. percent fraction total' = Some p \<and> 0 \<le> p \<and> p \<le> 100"
proof -
  have v0: "0 \<le> doubleProduct fraction total'"
    using doubleProduct_mono(1) [OF assms(1) order_refl assms(3)] .
  have v1: "doubleProduct fraction total' \<le> 100"
    using doubleProduct_le_100 [OF assms] .
  have t0: "0 \<le> truncate (doubleProduct fraction total')"
    using v0 by (simp add: truncate_nonneg)
  have "\<lfloor>doubleProduct fraction total'\<rfloor> \<le> \<lfloor>100 :: rat\<rfloor>"
    using v1 by (rule floor_mono)
  then have t1: "truncate (doubleProduct fraction total') \<le> 100"
    using v0 by (simp add: truncate_nonneg)
  show ?thesis
    using t0 t1 assms(3) by (simp add: percent_doubleProduct)
qed

lemma percent_mono:
  assumes "0 \<le> r1" "r1 \<le> r2" "0 < total'" "percent r2 total' = Some p2"
  shows "\<exists>p1. percent r1 total' = Some p1 \<and> 0 \<le> p1 \<and> p1 \<le> p2"
proof -
  have v0: "0 \<le> doubleProduct r1 total'" and v12: "doubleProduct r1 total' \<le> doubleProduct r2 total'"
    using doubleProduct_mono [OF assms(1,2,3)] by simp_all
  have t0: "0 \<le> truncate (doubleProduct r1 total')"
    using v0 by (simp add: truncate_nonneg)
  have "\<lfloor>doubleProduct r1 total'\<rfloor> \<le> \<lfloor>doubleProduct r2 total'\<rfloor>"
    using v12 by (rule floor_mono)
  then have t12: "truncate (doubleProduct r1 total') \<le> truncate (doubleProduct r2 total')"
    using v0 v12 by (simp add: truncate_nonneg)
  have p2: "truncate (doubleProduct r2 total') = p2" "p2 < 2 ^ 31"
    using assms(3,4) by (simp_all add: percent_doubleProduct split: if_splits)
  show ?thesis
    using t0 t12 p2 assms(3) by (simp add: percent_doubleProduct)
qed

lemma roundHalfEven_error: "\<bar>of_int (roundHalfEven y) - y\<bar> \<le> 1 / 2"
proof -
  have "of_int \<lfloor>y\<rfloor> \<le> y" and "y < of_int \<lfloor>y\<rfloor> + 1" by linarith+
  then show ?thesis by (auto simp: roundHalfEven_def Let_def)
qed

lemma toDouble_error:
  assumes "0 \<le> x"
  shows "x * (1 - 1 / 2 ^ 53) \<le> toDouble x" and "toDouble x \<le> x * (1 + 1 / 2 ^ 53)"
proof -
  have "\<bar>toDouble x - x\<bar> \<le> x / 2 ^ 53"
  proof (cases "x = 0")
    case True
    then show ?thesis by (simp add: toDouble_zero)
  next
    case False
    with assms have pos: "0 < x" by simp
    define u :: rat where "u = 2 powi (exponentOf x - 52)"
    have u: "0 < u" by (simp add: u_def)
    have "2 powi exponentOf x = 2 ^ 52 * u"
      by (simp add: u_def power_int_diff)
    with exponentOf_bracket(1) [OF pos] have ux: "2 ^ 52 * u \<le> x" by simp
    have "\<bar>of_int (roundHalfEven (x / u)) - x / u\<bar> * u \<le> 1 / 2 * u"
      using roundHalfEven_error [of "x / u"] u by (intro mult_right_mono) simp_all
    moreover have "\<bar>of_int (roundHalfEven (x / u)) - x / u\<bar> * u
        = \<bar>of_int (roundHalfEven (x / u)) * u - x\<bar>"
    proof -
      have "\<bar>of_int (roundHalfEven (x / u)) - x / u\<bar> * u
          = \<bar>(of_int (roundHalfEven (x / u)) - x / u) * u\<bar>"
        using u by (simp add: abs_mult)
      also have "(of_int (roundHalfEven (x / u)) - x / u) * u
          = of_int (roundHalfEven (x / u)) * u - x"
        using u by (simp add: left_diff_distrib)
      finally show ?thesis .
    qed
    ultimately have "\<bar>toDouble x - x\<bar> \<le> u / 2"
      by (simp add: toDouble_pos [OF pos] flip: u_def)
    also have "u / 2 \<le> x / 2 ^ 53" using ux by simp
    finally show ?thesis .
  qed
  then have "x - x / 2 ^ 53 \<le> toDouble x" and "toDouble x \<le> x + x / 2 ^ 53"
    by linarith+
  then show "x * (1 - 1 / 2 ^ 53) \<le> toDouble x" and "toDouble x \<le> x * (1 + 1 / 2 ^ 53)"
    by (simp_all only: right_diff_distrib distrib_left mult_1_right times_divide_eq_right)
qed

lemma doubleProduct_error:
  assumes "0 \<le> fraction" "0 < total'"
  shows "of_int fraction * 100 / of_int total' * (1 - 1 / 2 ^ 50) \<le> doubleProduct fraction total'"
    and "doubleProduct fraction total' \<le> of_int fraction * 100 / of_int total' * (1 + 1 / 2 ^ 50)"
proof -
  define r :: rat where "r = of_int fraction"
  define w :: rat where "w = of_int total'"
  define hi :: rat where "hi = 1 + 1 / 2 ^ 53"
  define lo :: rat where "lo = 1 - 1 / 2 ^ 53"
  define a where "a = toDouble r"
  define b where "b = toDouble w"
  define q where "q = toDouble (a / b)"
  have r: "0 \<le> r" and w: "0 < w" using assms by (simp_all add: r_def w_def)
  have hi: "0 < hi" and lo: "0 < lo" by (simp_all add: hi_def lo_def)
  have a: "r * lo \<le> a" "a \<le> r * hi"
    using toDouble_error [OF r] by (simp_all add: a_def hi_def lo_def)
  have b: "w * lo \<le> b" "b \<le> w * hi"
    using toDouble_error [of w] w by (simp_all add: b_def hi_def lo_def)
  have bpos: "0 < b" using w by (simp add: b_def toDouble_positive)
  have a0: "0 \<le> a" using r by (simp add: a_def toDouble_nonneg)
  have ab0: "0 \<le> a / b" using a0 bpos by simp
  have ab_hi: "a / b \<le> r * hi / (w * lo)"
    using r hi a(2) w lo b(1) by (intro frac_le) simp_all
  have ab_lo: "r * lo / (w * hi) \<le> a / b"
    using a0 a(1) bpos b(2) by (intro frac_le) simp_all
  have q: "a / b * lo \<le> q" "q \<le> a / b * hi"
    using toDouble_error [OF ab0] by (simp_all add: q_def hi_def lo_def)
  have q0: "0 \<le> q" using ab0 by (simp add: q_def toDouble_nonneg)
  have q_hi: "q \<le> r * hi / (w * lo) * hi"
    using q(2) ab_hi hi by (meson mult_right_mono less_imp_le order_trans)
  have q_lo: "r * lo / (w * hi) * lo \<le> q"
    using q(1) ab_lo lo by (meson mult_right_mono less_imp_le order_trans)
  have p: "q * 100 * lo \<le> toDouble (q * 100)" "toDouble (q * 100) \<le> q * 100 * hi"
    using toDouble_error [of "q * 100"] q0 by (simp_all add: hi_def lo_def)
  have p_hi: "toDouble (q * 100) \<le> r * hi / (w * lo) * hi * 100 * hi"
    using p(2) q_hi hi by (meson mult_right_mono less_imp_le order_trans zero_le_numeral)
  have p_lo: "r * lo / (w * hi) * lo * 100 * lo \<le> toDouble (q * 100)"
    using p(1) q_lo lo by (meson mult_right_mono less_imp_le order_trans zero_le_numeral)
  have e0: "0 \<le> r * 100 / w" using r w by simp
  have c_hi: "hi * hi * hi / lo \<le> 1 + 1 / 2 ^ 50" and c_lo: "1 - 1 / 2 ^ 50 \<le> lo * lo * lo / hi"
    by (simp_all add: hi_def lo_def)
  have "r * hi / (w * lo) * hi * 100 * hi = r * 100 / w * (hi * hi * hi / lo)"
    using w lo by (simp add: field_simps)
  also have "\<dots> \<le> r * 100 / w * (1 + 1 / 2 ^ 50)"
    using c_hi e0 by (rule mult_left_mono)
  finally have up: "toDouble (q * 100) \<le> r * 100 / w * (1 + 1 / 2 ^ 50)"
    using p_hi by simp
  have "r * 100 / w * (1 - 1 / 2 ^ 50) \<le> r * 100 / w * (lo * lo * lo / hi)"
    using c_lo e0 by (rule mult_left_mono)
  also have "r * 100 / w * (lo * lo * lo / hi) = r * lo / (w * hi) * lo * 100 * lo"
    using w hi by (simp add: field_simps)
  finally have down: "r * 100 / w * (1 - 1 / 2 ^ 50) \<le> toDouble (q * 100)"
    using p_lo by simp
  show "of_int fraction * 100 / of_int total' * (1 - 1 / 2 ^ 50) \<le> doubleProduct fraction total'"
    using down by (simp add: doubleProduct_def q_def a_def b_def r_def w_def)
  show "doubleProduct fraction total' \<le> of_int fraction * 100 / of_int total' * (1 + 1 / 2 ^ 50)"
    using up by (simp add: doubleProduct_def q_def a_def b_def r_def w_def)
qed

lemma percent_close_to_floor:
  assumes "0 \<le> fraction" "0 < total'" "percent fraction total' = Some p"
  shows "\<lfloor>of_int fraction * 100 / of_int total' :: rat\<rfloor> - 1 \<le> p"
    and "p \<le> \<lfloor>of_int fraction * 100 / of_int total' :: rat\<rfloor> + 1"
proof -
  define e :: rat where "e = of_int fraction * 100 / of_int total'"
  define v where "v = doubleProduct fraction total'"
  have e0: "0 \<le> e" using assms(1,2) by (simp add: e_def)
  have v0: "0 \<le> v"
    using doubleProduct_mono(1) [OF assms(1) order_refl assms(2)] by (simp add: v_def)
  have p: "p = \<lfloor>v\<rfloor>" and small: "\<lfloor>v\<rfloor> < 2 ^ 31"
    using assms(2,3) v0
    by (simp_all add: percent_doubleProduct truncate_nonneg v_def split: if_splits)
  have "v < of_int (2 ^ 31)"
    using small by (simp only: floor_less_iff)
  then have v31: "v < 2 ^ 31" by simp
  have lo: "e * (1 - 1 / 2 ^ 50) \<le> v" and hi: "v \<le> e * (1 + 1 / 2 ^ 50)"
    using doubleProduct_error [OF assms(1,2)] by (simp_all add: e_def v_def)
  have "e * (1 - 1 / 2 ^ 50) < 2 ^ 31" using lo v31 by simp
  then have "e < 2 ^ 32" by simp
  then have tiny: "e / 2 ^ 50 < 1" by simp
  have "v \<le> e + e / 2 ^ 50" using hi by (simp add: distrib_left)
  with tiny have up: "v \<le> e + 1" by simp
  have "e - e / 2 ^ 50 \<le> v" using lo by (simp add: right_diff_distrib)
  with tiny have down: "e - 1 \<le> v" by simp
  have "\<lfloor>v\<rfloor> \<le> \<lfloor>e + 1\<rfloor>" using up by (rule floor_mono)
  then show "p \<le> \<lfloor>of_int fraction * 100 / of_int total' :: rat\<rfloor> + 1"
    by (simp add: p e_def)
  have "\<lfloor>e - 1\<rfloor> \<le> \<lfloor>v\<rfloor>" using down by (rule floor_mono)
  then show "\<lfloor>of_int fraction * 100 / of_int total' :: rat\<rfloor> - 1 \<le> p"
    by (simp add: p e_def)
qed

lemma percent_29_100: "percent 29 100 = Some 28 \<and> percent_spec 29 100 = 29"
  by code_simp

text \<open>
  The conversion of the product to \<^verbatim>\<open>int\<close> is defined only when the truncated product
  fits an \<^verbatim>\<open>int\<close>: for 21474837 of 1 bytes the product is 2147483700, above the largest
  \<^verbatim>\<open>int\<close>, and \<^verbatim>\<open>percent\<close> has no defined result.
\<close>

lemma percent_out_of_int_range: "percent 21474837 1 = None"
  by code_simp

text \<open>
  C6 (as the code has it): \<^verbatim>\<open>percent\<close> is 0 for a total of 0, whatever the fraction.
  It is 0 for (0, 0), 50 for (50, 100) and 33 for (1, 3). The result is not clamped; for
  \<open>0 \<le> fraction \<le> total\<close> and a positive total it is defined and lies between 0 and
  100. It is the truncated product of double precision, which is not always the floor of
  the exact quotient. Whenever the truncated product fits an \<^verbatim>\<open>int\<close>, so that the result
  \<open>p\<close> is defined, for a fraction that is not negative and a positive total, \<open>p\<close> differs
  from \<open>\<lfloor>fraction * 100 / total\<rfloor>\<close> by at most 1 (it is 28 for (29, 100)). At a fixed
  positive total, whenever the truncated product for a fraction \<open>r2\<close> fits an \<^verbatim>\<open>int\<close>, so
  does the one for every fraction \<open>r1\<close> with \<open>0 \<le> r1 \<le> r2\<close>, and the result for \<open>r1\<close> is
  not negative and not larger than the one for \<open>r2\<close>. Nothing is stated about a fraction
  whose truncated product does not fit an \<^verbatim>\<open>int\<close>.
\<close>

theorem percent_double_unclamped:
  "percent fraction 0 = Some 0
   \<and> percent 0 0 = Some 0 \<and> percent 50 100 = Some 50 \<and> percent 1 3 = Some 33
   \<and> (0 \<le> fraction \<and> fraction \<le> total' \<and> 0 < total' \<longrightarrow>
        (\<exists>p. percent fraction total' = Some p \<and> 0 \<le> p \<and> p \<le> 100))
   \<and> (0 \<le> fraction \<and> 0 < total' \<and> percent fraction total' = Some p \<longrightarrow>
        \<lfloor>of_int fraction * 100 / of_int total' :: rat\<rfloor> - 1 \<le> p \<and>
        p \<le> \<lfloor>of_int fraction * 100 / of_int total' :: rat\<rfloor> + 1)
   \<and> (0 \<le> r1 \<and> r1 \<le> r2 \<and> 0 < total' \<and> percent r2 total' = Some p2 \<longrightarrow>
        (\<exists>p1. percent r1 total' = Some p1 \<and> 0 \<le> p1 \<and> p1 \<le> p2))"
proof -
  have zero: "percent fraction 0 = Some 0" "percent 0 0 = Some 0"
    by (simp_all add: percent_def)
  have v1: "percent 50 100 = Some 50" by code_simp
  have v2: "percent 1 3 = Some 33" by code_simp
  show ?thesis
    using zero v1 v2 percent_in_range percent_close_to_floor percent_mono by blast
qed

theorem percent_double_unclamped_witness:
  "(0 :: int) \<le> 1 \<and> (1 :: int) \<le> 2 \<and> (2 :: int) \<le> 3 \<and> (0 :: int) < 3
   \<and> percent 2 3 = Some 66
   \<and> (\<exists>p. percent 2 3 = Some p \<and> 0 \<le> p \<and> p \<le> 100)
   \<and> \<lfloor>of_int 2 * 100 / of_int 3 :: rat\<rfloor> - 1 \<le> 66
   \<and> 66 \<le> \<lfloor>of_int 2 * 100 / of_int 3 :: rat\<rfloor> + 1
   \<and> (\<exists>p1. percent 1 3 = Some p1 \<and> 0 \<le> p1 \<and> p1 \<le> 66)"
proof -
  have h1: "(0 :: int) \<le> 1" and h2: "(1 :: int) \<le> 2" and h3: "(2 :: int) \<le> 3"
    and h4: "(0 :: int) < 3" and h5: "(0 :: int) \<le> 2"
    by simp_all
  have h6: "percent 2 3 = Some 66" by code_simp
  from percent_double_unclamped [of 2 3 66 1 2 66] h1 h2 h3 h4 h5 h6
  show ?thesis by blast
qed

text \<open>
  The claim C6 as stated, that \<^verbatim>\<open>percent\<close> is the floor of the exact quotient clamped to
  the range from 0 to 100, is false: for 200 of 100 bytes the code returns 200.
\<close>

theorem percent_exceeds_100:
  "percent 200 100 = Some 200 \<and> percent_spec 200 100 = 100"
  by code_simp

end
